theory Spec2Isabelle
  imports Main
begin

section \<open>Field elements, addresses and opaque primitives\<close>

text \<open>
  The state manager (\<^verbatim>\<open>AvmPersistableStateManager\<close>) only compares field elements for
  equality and, through \<^verbatim>\<open>toBigInt()\<close>, as unsigned integers; it performs no field
  arithmetic. A field element and an address are therefore natural numbers here.
\<close>

type_synonym Fr = nat
type_synonym AztecAddress = nat

text \<open>
  The hash functions and the protocol constants are imported by the state manager from
  other packages. They are parameters of every operation that uses them.
\<close>

record Primitives =
  computePublicDataTreeLeafSlot :: "AztecAddress \<Rightarrow> Fr \<Rightarrow> Fr"
  siloNullifier :: "AztecAddress \<Rightarrow> Fr \<Rightarrow> Fr"
  CANONICAL_AUTH_REGISTRY_ADDRESS :: nat
  DEPLOYER_CONTRACT_ADDRESS :: nat
  REGISTERER_CONTRACT_ADDRESS :: nat
  MULTI_CALL_ENTRYPOINT_ADDRESS :: nat
  FEE_JUICE_ADDRESS :: nat
  ROUTER_ADDRESS :: nat

section \<open>The persistent tree accessor\<close>

datatype IndexedTreeId = NULLIFIER_TREE | PUBLIC_DATA_TREE

datatype AppendOnlyTreeId = NOTE_HASH_TREE | L1_TO_L2_MESSAGE_TREE

datatype MerkleTreeId = Indexed IndexedTreeId | AppendOnly AppendOnlyTreeId

text \<open>
  Modelled from the spec: the leaf preimage classes are not part of the sources. "Indexed
  leaf preimage: { key, value, nextKey, nextIndex }". For the public data tree \<open>leafKey\<close> is the source's
  \<^verbatim>\<open>slot\<close> and \<open>nextKey\<close> its \<^verbatim>\<open>nextSlot\<close>; for the nullifier tree they are
  \<^verbatim>\<open>nullifier\<close> and \<^verbatim>\<open>nextNullifier\<close>, and \<open>leafValue\<close> is unused (zero).
\<close>

record IndexedTreeLeafPreimage =
  leafKey :: Fr
  leafValue :: Fr
  nextKey :: Fr
  nextIndex :: nat

text \<open>
  The hashes along a sibling path are computed by the storage engine from opaque hash
  functions. A path is identified by the tree and the leaf index it was requested for;
  \<open>EmptyPath\<close> is the empty array the state manager passes when it has no path.
\<close>

datatype SiblingPath = EmptyPath | SiblingPath MerkleTreeId nat

text \<open>
  Modelled from the spec: one element of the witness data \<^verbatim>\<open>sequentialInsert\<close> returns,
  with the fields the state manager reads (\<^verbatim>\<open>leafPreimage\<close>, \<^verbatim>\<open>index\<close>,
  \<^verbatim>\<open>siblingPath\<close>).
\<close>

record LeafWitness =
  leafPreimage :: IndexedTreeLeafPreimage
  index :: nat
  siblingPath :: SiblingPath

text \<open>
  Modelled from the spec: the four trees of the "tree identifier". An indexed tree is the
  list of its leaf preimages in index order, an append-only tree the list of its leaves.
\<close>

record MerkleTrees =
  publicDataTree :: "IndexedTreeLeafPreimage list"
  nullifierTree :: "IndexedTreeLeafPreimage list"
  noteHashTree :: "Fr list"
  l1ToL2MessageTree :: "Fr list"

text \<open>
  The contract instance and the contract class are declared outside the sources; they
  have the fields the state manager reads, and a few more to tell instances apart.
\<close>

record ContractInstance =
  salt :: Fr
  deployer :: AztecAddress
  contractClassId :: Fr
  initializationHash :: Fr

record ContractClass =
  artifactHash :: Fr
  privateFunctionsRoot :: Fr
  packedBytecode :: "nat list"

text \<open>
  Modelled from the spec: \<^verbatim>\<open>WorldStateDB\<close> is not part of the sources. It holds the
  Merkle trees with their stack of open checkpoints, and the contract data source.

  The field \<open>lowWitnessAfterUpdate\<close> fixes one point the description of the accessor
  leaves open: whether the low-leaf witness that \<^verbatim>\<open>sequentialInsert\<close> returns for an
  in-place update shows the leaf after the update (\<open>True\<close>) or before it (\<open>False\<close>).
\<close>

record WorldStateDB =
  trees :: MerkleTrees
  checkpoints :: "MerkleTrees list"
  contractInstances :: "AztecAddress \<rightharpoonup> ContractInstance"
  contractClasses :: "Fr \<rightharpoonup> ContractClass"
  bytecodeCommitments :: "Fr \<rightharpoonup> Fr"
  lowWitnessAfterUpdate :: bool

definition indexedTree :: "MerkleTrees \<Rightarrow> IndexedTreeId \<Rightarrow> IndexedTreeLeafPreimage list" where
  "indexedTree ts t = (case t of NULLIFIER_TREE \<Rightarrow> nullifierTree ts | PUBLIC_DATA_TREE \<Rightarrow> publicDataTree ts)"

definition setIndexedTree ::
  "MerkleTrees \<Rightarrow> IndexedTreeId \<Rightarrow> IndexedTreeLeafPreimage list \<Rightarrow> MerkleTrees" where
  "setIndexedTree ts t ls =
     (case t of NULLIFIER_TREE \<Rightarrow> ts\<lparr>nullifierTree := ls\<rparr>
              | PUBLIC_DATA_TREE \<Rightarrow> ts\<lparr>publicDataTree := ls\<rparr>)"

definition appendOnlyTree :: "MerkleTrees \<Rightarrow> AppendOnlyTreeId \<Rightarrow> Fr list" where
  "appendOnlyTree ts t = (case t of NOTE_HASH_TREE \<Rightarrow> noteHashTree ts | L1_TO_L2_MESSAGE_TREE \<Rightarrow> l1ToL2MessageTree ts)"

text \<open>
  Modelled from the spec: the storage engine behind \<^verbatim>\<open>MerkleTreeWriteOperations\<close> is
  not part of the sources. \<^verbatim>\<open>getPreviousValueIndex\<close> "returns the index of the leaf
  whose key is the largest key \<open>\<le>\<close> the queried key, plus whether that leaf's key equals
  the queried key exactly". A tree is the list of its leaves in index order; the scan
  returns no index when no leaf has a key \<open>\<le>\<close> the queried one.
\<close>

fun previousValueIndex :: "IndexedTreeLeafPreimage list \<Rightarrow> nat \<Rightarrow> nat option" where
  "previousValueIndex [] k = None"
| "previousValueIndex (l # ls) k =
     (case previousValueIndex ls k of
        None \<Rightarrow> (if leafKey l \<le> k then Some 0 else None)
      | Some j \<Rightarrow> (if leafKey l \<le> k \<and> leafKey (ls ! j) \<le> leafKey l then Some 0 else Some (Suc j)))"

text \<open>
  Modelled from the spec: \<^verbatim>\<open>getPreviousValueIndex(treeId, key) \<rightarrow> {index, alreadyPresent}
  | undefined\<close>, the scan above with "whether that leaf's key equals the queried key
  exactly".
\<close>

definition getPreviousValueIndex :: "WorldStateDB \<Rightarrow> IndexedTreeId \<Rightarrow> nat \<Rightarrow> (nat \<times> bool) option" where
  "getPreviousValueIndex db t k =
     (case previousValueIndex (indexedTree (trees db) t) k of
        None \<Rightarrow> None
      | Some i \<Rightarrow> Some (i, leafKey (indexedTree (trees db) t ! i) = k))"

text \<open>Modelled from the spec: \<^verbatim>\<open>getLeafPreimage(treeId, index) \<rightarrow> preimage | undefined\<close>.\<close>

definition getLeafPreimage :: "WorldStateDB \<Rightarrow> IndexedTreeId \<Rightarrow> nat \<Rightarrow> IndexedTreeLeafPreimage option" where
  "getLeafPreimage db t i =
     (if i < length (indexedTree (trees db) t) then Some (indexedTree (trees db) t ! i) else None)"

text \<open>Modelled from the spec: \<^verbatim>\<open>getLeafValue(treeId, index) \<rightarrow> value | undefined\<close>.\<close>

definition getLeafValue :: "WorldStateDB \<Rightarrow> AppendOnlyTreeId \<Rightarrow> nat \<Rightarrow> Fr option" where
  "getLeafValue db t i =
     (if i < length (appendOnlyTree (trees db) t) then Some (appendOnlyTree (trees db) t ! i) else None)"

text \<open>Modelled from the spec: \<^verbatim>\<open>getSiblingPath(treeId, index) \<rightarrow> path[]\<close>.\<close>

definition getSiblingPath :: "WorldStateDB \<Rightarrow> MerkleTreeId \<Rightarrow> nat \<Rightarrow> SiblingPath" where
  "getSiblingPath db t i = SiblingPath t i"

text \<open>
  Modelled from the spec: \<^verbatim>\<open>sequentialInsert(treeId, key, value)\<close>: "(1) locate the
  low leaf; (2) if alreadyPresent, update that leaf's value in place and return only
  low-leaf witness data (no new leaf); (3) otherwise, splice a new leaf between the low
  leaf and its successor (set low leaf's nextKey/nextIndex to point at the new leaf; new
  leaf points at whatever the low leaf previously pointed at), append it to the tree, and
  return both the low-leaf witness (pre-splice state and path) and the new-leaf witness
  (post-insertion state and path)". The result is \<open>None\<close> when no low leaf is found.
\<close>

definition insertLeaf ::
  "bool \<Rightarrow> MerkleTreeId \<Rightarrow> IndexedTreeLeafPreimage list \<Rightarrow> Fr \<Rightarrow> Fr
    \<Rightarrow> (IndexedTreeLeafPreimage list \<times> LeafWitness \<times> LeafWitness option) option" where
  "insertLeaf after tid ls k v =
     (case previousValueIndex ls k of
        None \<Rightarrow> None
      | Some i \<Rightarrow>
          (let low = ls ! i in
           if leafKey low = k then
             Some (ls[i := low\<lparr>leafValue := v\<rparr>],
                   \<lparr>leafPreimage = (if after then low\<lparr>leafValue := v\<rparr> else low),
                    index = i, siblingPath = SiblingPath tid i\<rparr>,
                   None)
           else
             (let new = \<lparr>leafKey = k, leafValue = v, nextKey = nextKey low, nextIndex = nextIndex low\<rparr>
              in Some (ls[i := low\<lparr>nextKey := k, nextIndex := length ls\<rparr>] @ [new],
                       \<lparr>leafPreimage = low, index = i, siblingPath = SiblingPath tid i\<rparr>,
                       Some \<lparr>leafPreimage = new, index = length ls,
                             siblingPath = SiblingPath tid (length ls)\<rparr>))))"

text \<open>
  Modelled from the spec: \<^verbatim>\<open>sequentialInsert\<close> on the database, the splice above applied
  to the tree \<open>t\<close>.
\<close>

definition sequentialInsert ::
  "WorldStateDB \<Rightarrow> IndexedTreeId \<Rightarrow> Fr \<Rightarrow> Fr \<Rightarrow> (WorldStateDB \<times> LeafWitness \<times> LeafWitness option) option" where
  "sequentialInsert db t k v =
     (case insertLeaf (lowWitnessAfterUpdate db) (Indexed t) (indexedTree (trees db) t) k v of
        None \<Rightarrow> None
      | Some (ls, low, ins) \<Rightarrow> Some (db\<lparr>trees := setIndexedTree (trees db) t ls\<rparr>, low, ins))"

text \<open>
  Modelled from the spec: \<^verbatim>\<open>createCheckpoint() / commitCheckpoint() / revertCheckpoint()\<close>.
  Checkpoints nest and close in LIFO order; closing a checkpoint when none is open has no
  result (\<open>None\<close>).
\<close>

definition createCheckpoint :: "WorldStateDB \<Rightarrow> WorldStateDB" where
  "createCheckpoint db = db\<lparr>checkpoints := trees db # checkpoints db\<rparr>"

text \<open>
  Modelled from the spec: \<^verbatim>\<open>commitCheckpoint()\<close> closes the innermost checkpoint and
  keeps the current trees.
\<close>

definition commitCheckpoint :: "WorldStateDB \<Rightarrow> WorldStateDB option" where
  "commitCheckpoint db =
     (case checkpoints db of [] \<Rightarrow> None | saved # cs \<Rightarrow> Some (db\<lparr>checkpoints := cs\<rparr>))"

text \<open>
  Modelled from the spec: \<^verbatim>\<open>revertCheckpoint()\<close> closes the innermost checkpoint and
  restores the trees it saved, "undoing any persistent writes made during the fork".
\<close>

definition revertCheckpoint :: "WorldStateDB \<Rightarrow> WorldStateDB option" where
  "revertCheckpoint db =
     (case checkpoints db of [] \<Rightarrow> None | saved # cs \<Rightarrow> Some (db\<lparr>trees := saved, checkpoints := cs\<rparr>))"

text \<open>
  Modelled from the spec: \<^verbatim>\<open>WorldStateDB.storageRead\<close>, the persistent read behind the
  value cache: it "queries the persistent accessor (siloed by address+slot into a single
  leaf-slot key) and returns 0 if never written".
\<close>

definition storageRead :: "Primitives \<Rightarrow> WorldStateDB \<Rightarrow> AztecAddress \<Rightarrow> Fr \<Rightarrow> Fr" where
  "storageRead P db contractAddress slot =
     (let leafSlot = computePublicDataTreeLeafSlot P contractAddress slot in
      case getPreviousValueIndex db PUBLIC_DATA_TREE leafSlot of
        None \<Rightarrow> 0
      | Some (i, alreadyPresent) \<Rightarrow>
          (if \<not> alreadyPresent then 0
           else (case getLeafPreimage db PUBLIC_DATA_TREE i of None \<Rightarrow> 0 | Some p \<Rightarrow> leafValue p)))"

text \<open>
  Modelled from the spec: \<^verbatim>\<open>WorldStateDB.getNullifierIndex\<close>, the persistent lookup
  behind the nullifier cache (\<^verbatim>\<open>findLeafIndices\<close> on the nullifier tree).
\<close>

fun findLeafIndex :: "IndexedTreeLeafPreimage list \<Rightarrow> Fr \<Rightarrow> nat option" where
  "findLeafIndex [] k = None"
| "findLeafIndex (l # ls) k =
     (if leafKey l = k then Some 0 else map_option Suc (findLeafIndex ls k))"

text \<open>
  Modelled from the spec: \<^verbatim>\<open>WorldStateDB.getNullifierIndex\<close>, the index of the leaf that
  holds the nullifier, if any.
\<close>

definition getNullifierIndex :: "WorldStateDB \<Rightarrow> Fr \<Rightarrow> nat option" where
  "getNullifierIndex db n = findLeafIndex (nullifierTree (trees db)) n"


text \<open>
  Modelled from the spec: \<^verbatim>\<open>WorldStateDB.getCommitmentValue\<close> "fetches the raw leaf
  value at leafIndex from the persistent append-only tree".
\<close>

definition getCommitmentValue :: "WorldStateDB \<Rightarrow> nat \<Rightarrow> Fr option" where
  "getCommitmentValue db leafIndex = getLeafValue db NOTE_HASH_TREE leafIndex"

section \<open>The value cache and the nullifier cache\<close>

text \<open>
  Modelled from the spec: \<^verbatim>\<open>PublicStorage\<close> (section 4.1) is not part of the sources.
  "write(address, slot, value) stores into the overlay unconditionally, overwriting any
  prior pending value"; "read(address, slot) returns the overlay's value if present;
  otherwise queries the persistent accessor and returns 0 if never written"; "fork()
  produces a child overlay that reads through to the parent on cache miss but writes only
  to itself"; "acceptAndMerge(child) copies the child's entries into the parent's overlay,
  overwriting".

  A child overlay holds its parent overlay as it was when the child was forked. The
  parent is not written while a fork of it is active (the nested-call discipline).
\<close>

datatype PublicStorage =
  PublicStorage (ps_cache: "(AztecAddress \<times> Fr) \<rightharpoonup> Fr") (ps_parent: "PublicStorage option")

text \<open>
  Modelled from the spec: the lookup of \<^verbatim>\<open>PublicStorage\<close> in its own overlay, then in
  its ancestors' ("reads through to the parent on cache miss").
\<close>

fun readHereOrParent :: "PublicStorage \<Rightarrow> AztecAddress \<Rightarrow> Fr \<Rightarrow> Fr option" where
  "readHereOrParent (PublicStorage c p) a s =
     (case c (a, s) of
        Some v \<Rightarrow> Some v
      | None \<Rightarrow> (case p of None \<Rightarrow> None | Some q \<Rightarrow> readHereOrParent q a s))"

text \<open>
  Modelled from the spec: \<^verbatim>\<open>PublicStorage.read(address, slot) \<rightarrow> {value, cached}\<close>.
\<close>

definition PublicStorage_read ::
  "Primitives \<Rightarrow> WorldStateDB \<Rightarrow> PublicStorage \<Rightarrow> AztecAddress \<Rightarrow> Fr \<Rightarrow> Fr \<times> bool" where
  "PublicStorage_read P db ps a s =
     (case readHereOrParent ps a s of
        Some v \<Rightarrow> (v, True)
      | None \<Rightarrow> (storageRead P db a s, False))"

text \<open>Modelled from the spec: \<^verbatim>\<open>PublicStorage.write(address, slot, value)\<close>.\<close>

definition PublicStorage_write :: "PublicStorage \<Rightarrow> AztecAddress \<Rightarrow> Fr \<Rightarrow> Fr \<Rightarrow> PublicStorage" where
  "PublicStorage_write ps a s v = PublicStorage ((ps_cache ps)((a, s) \<mapsto> v)) (ps_parent ps)"

text \<open>Modelled from the spec: \<^verbatim>\<open>PublicStorage.fork()\<close>.\<close>

definition PublicStorage_fork :: "PublicStorage \<Rightarrow> PublicStorage" where
  "PublicStorage_fork ps = PublicStorage Map.empty (Some ps)"

text \<open>Modelled from the spec: \<^verbatim>\<open>PublicStorage.acceptAndMerge(child)\<close>.\<close>

definition PublicStorage_acceptAndMerge :: "PublicStorage \<Rightarrow> PublicStorage \<Rightarrow> PublicStorage" where
  "PublicStorage_acceptAndMerge ps incoming =
     PublicStorage (ps_cache ps ++ ps_cache incoming) (ps_parent ps)"

text \<open>
  Modelled from the spec: \<^verbatim>\<open>NullifierManager\<close> (section 4.2) is not part of the
  sources. "append(key) adds to a pending set"; "checkExists(key) \<rightarrow> (exists, isPending, source) reports set membership
  considering both this overlay and, through a supplied callback, the persistent
  accessor"; "fork()/acceptAndMerge() follow the same child/parent-overwrite semantics as
  the Value Cache".
\<close>

datatype NullifierManager =
  NullifierManager (nm_cache: "Fr set") (nm_parent: "NullifierManager option")

text \<open>
  Modelled from the spec: the membership of a nullifier in the pending set of
  \<^verbatim>\<open>NullifierManager\<close> or of an ancestor.
\<close>

fun checkExistsHereOrParent :: "NullifierManager \<Rightarrow> Fr \<Rightarrow> bool" where
  "checkExistsHereOrParent (NullifierManager c p) n =
     (if n \<in> c then True
      else (case p of None \<Rightarrow> False | Some q \<Rightarrow> checkExistsHereOrParent q n))"

text \<open>
  Modelled from the spec: \<^verbatim>\<open>NullifierManager.checkExists(key) \<rightarrow> (exists, isPending,
  source)\<close>; the source is the leaf index in the persistent tree when the nullifier is
  not pending.
\<close>

definition NullifierManager_checkExists ::
  "WorldStateDB \<Rightarrow> NullifierManager \<Rightarrow> Fr \<Rightarrow> bool \<times> bool \<times> nat option" where
  "NullifierManager_checkExists db nm n =
     (let existsAsPending = checkExistsHereOrParent nm n;
          leafIndex = (if existsAsPending then None else getNullifierIndex db n)
      in (existsAsPending \<or> leafIndex \<noteq> None, existsAsPending, leafIndex))"

text \<open>
  Modelled from the spec: \<^verbatim>\<open>NullifierManager.append(key)\<close> "adds to a pending set".
  Section 4.2 adds that a duplicate append "is not rejected here"; the source of the state
  manager says otherwise. It takes \<^verbatim>\<open>NullifierCollisionError\<close> from this module
  (\<^verbatim>\<open>import { NullifierCollisionError, NullifierManager } from './nullifiers.js'\<close>),
  its comment counts on "the error from the insert operation", and with Merkle operations
  off it makes no existence check of its own before \<^verbatim>\<open>append\<close>. So \<^verbatim>\<open>append\<close> throws
  \<^verbatim>\<open>NullifierCollisionError\<close> when the nullifier "already exists in parent cache or
  host", that is when \<^verbatim>\<open>checkExists\<close> reports it. The result \<open>None\<close> is that throw.
\<close>

definition NullifierManager_append :: "WorldStateDB \<Rightarrow> NullifierManager \<Rightarrow> Fr \<Rightarrow> NullifierManager option" where
  "NullifierManager_append db nm n =
     (if fst (NullifierManager_checkExists db nm n) then None
      else Some (NullifierManager (insert n (nm_cache nm)) (nm_parent nm)))"

text \<open>Modelled from the spec: \<^verbatim>\<open>NullifierManager.fork()\<close>.\<close>

definition NullifierManager_fork :: "NullifierManager \<Rightarrow> NullifierManager" where
  "NullifierManager_fork nm = NullifierManager {} (Some nm)"

text \<open>Modelled from the spec: \<^verbatim>\<open>NullifierManager.acceptAndMerge(child)\<close>.\<close>

definition NullifierManager_acceptAndMerge :: "NullifierManager \<Rightarrow> NullifierManager \<Rightarrow> NullifierManager" where
  "NullifierManager_acceptAndMerge nm incoming =
     NullifierManager (nm_cache nm \<union> nm_cache incoming) (nm_parent nm)"

section \<open>The side-effect trace\<close>

record ContractClassPreimage =
  cp_artifactHash :: Fr
  cp_privateFunctionsRoot :: Fr
  cp_publicBytecodeCommitment :: Fr

type_synonym MembershipHint = "IndexedTreeLeafPreimage \<times> Fr \<times> SiblingPath"

text \<open>
  Modelled from the spec: the trace (\<^verbatim>\<open>PublicSideEffectTraceInterface\<close>) is not part of
  the sources. It "records ordered hints per operation": one entry per \<^verbatim>\<open>trace*\<close> call,
  holding the call's arguments; the witness arguments passed only in Merkle mode are
  optional. \<^verbatim>\<open>fork()\<close> starts an empty trace and \<^verbatim>\<open>merge(childTrace, reverted)\<close> records
  the child's entries with the reverted flag.
\<close>

datatype TraceEntry =
    TracePublicStorageWrite AztecAddress Fr Fr bool
      "(IndexedTreeLeafPreimage \<times> Fr \<times> SiblingPath \<times> IndexedTreeLeafPreimage \<times> SiblingPath option) option"
  | TracePublicStorageRead AztecAddress Fr Fr "MembershipHint option"
  | TraceNoteHashCheck AztecAddress Fr Fr bool "SiblingPath option"
  | TraceNullifierCheck Fr bool "MembershipHint option"
  | TraceNewNullifier Fr "(IndexedTreeLeafPreimage \<times> Fr \<times> SiblingPath \<times> SiblingPath) option"
  | TraceGetContractInstance AztecAddress bool "ContractInstance option" "MembershipHint option"
  | TraceGetBytecode AztecAddress bool "nat list option" "ContractInstance option"
      "ContractClassPreimage option" "MembershipHint option"
  | TraceMerge bool "TraceEntry list"

text \<open>Modelled from the spec: the trace's \<^verbatim>\<open>fork()\<close>.\<close>

definition SideEffectTrace_fork :: "TraceEntry list \<Rightarrow> TraceEntry list" where
  "SideEffectTrace_fork t = []"

text \<open>Modelled from the spec: the trace's \<^verbatim>\<open>merge(childTrace, reverted)\<close>.\<close>

definition SideEffectTrace_merge :: "TraceEntry list \<Rightarrow> TraceEntry list \<Rightarrow> bool \<Rightarrow> TraceEntry list" where
  "SideEffectTrace_merge t child reverted = t @ [TraceMerge reverted child]"

section \<open>The state manager\<close>

text \<open>
  Modelled from the spec: \<^verbatim>\<open>AvmEphemeralForest\<close>, the "ephemeral tree-shape state", is
  not part of the sources. The state manager only forks it and hands it over; it is an
  opaque handle here and \<^verbatim>\<open>fork()\<close> copies it.
\<close>

type_synonym AvmEphemeralForest = nat

definition AvmEphemeralForest_fork :: "AvmEphemeralForest \<Rightarrow> AvmEphemeralForest" where
  "AvmEphemeralForest_fork f = f"

text \<open>
  The fields of \<^verbatim>\<open>AvmPersistableStateManager\<close>. The \<^verbatim>\<open>WorldStateDB\<close> is one object
  shared by a state manager and all its forks: it is passed to every operation and
  returned by those that change it.
\<close>

record AvmPersistableStateManager =
  alreadyMergedIntoParent :: bool
  trace :: "TraceEntry list"
  publicStorage :: PublicStorage
  nullifiers :: NullifierManager
  doMerkleOperations :: bool
  merkleTrees :: AvmEphemeralForest
  firstNullifier :: Fr

text \<open>
  Every \<^verbatim>\<open>assert\<close> of the source is a value of \<open>AssertionFailure\<close>; \<open>TypeError\<close> is
  JavaScript's error on reading a property of \<^verbatim>\<open>undefined\<close>, and \<open>CheckpointError\<close>
  the accessor's failure to close a checkpoint.
\<close>

datatype AssertionFailure =
    AlreadyMerged
  | PublicDataInsertionError
  | ValueMismatchOnWrite
  | ValueMismatchOnRead
  | PublicDataLowLeafSkip
  | NullifierTreeDisagrees
  | NullifierLowLeafSkip
  | ContractInstanceDisagrees
  | ContractClassNotFound
  | BytecodeCommitmentNotFound
  | LowLeafIndexNotFound
  | LowLeafPreimageUndefined

datatype Error = AssertionError AssertionFailure | NullifierCollisionError | TypeError | CheckpointError

definition create ::
  "TraceEntry list \<Rightarrow> bool \<Rightarrow> AvmEphemeralForest \<Rightarrow> Fr \<Rightarrow> AvmPersistableStateManager" where
  "create tr doMerkle ephemeralForest firstNull =
     \<lparr>alreadyMergedIntoParent = False, trace = tr,
      publicStorage = PublicStorage Map.empty None,
      nullifiers = NullifierManager {} None,
      doMerkleOperations = doMerkle, merkleTrees = ephemeralForest, firstNullifier = firstNull\<rparr>"

definition fork :: "WorldStateDB \<Rightarrow> AvmPersistableStateManager \<Rightarrow> WorldStateDB \<times> AvmPersistableStateManager" where
  "fork db this =
     (createCheckpoint db,
      \<lparr>alreadyMergedIntoParent = False,
       trace = SideEffectTrace_fork (trace this),
       publicStorage = PublicStorage_fork (publicStorage this),
       nullifiers = NullifierManager_fork (nullifiers this),
       doMerkleOperations = doMerkleOperations this,
       merkleTrees = AvmEphemeralForest_fork (merkleTrees this),
       firstNullifier = firstNullifier this\<rparr>)"

text \<open>
  The source's \<^verbatim>\<open>_merge\<close>. It changes the database, the parent (\<open>this\<close>) and the fork,
  and returns all three.
\<close>

definition private_merge ::
  "WorldStateDB \<Rightarrow> AvmPersistableStateManager \<Rightarrow> AvmPersistableStateManager \<Rightarrow> bool
    \<Rightarrow> (Error + unit) \<times> WorldStateDB \<times> AvmPersistableStateManager \<times> AvmPersistableStateManager" where
  "private_merge db this forkedState reverted =
     (if alreadyMergedIntoParent forkedState then
        (Inl (AssertionError AlreadyMerged), db, this, forkedState)
      else
        (let forked1 = forkedState\<lparr>alreadyMergedIntoParent := True\<rparr>;
             this1 = this\<lparr>publicStorage :=
                        PublicStorage_acceptAndMerge (publicStorage this) (publicStorage forked1)\<rparr>;
             this2 = this1\<lparr>nullifiers :=
                        NullifierManager_acceptAndMerge (nullifiers this1) (nullifiers forked1)\<rparr>;
             this3 = this2\<lparr>trace := SideEffectTrace_merge (trace this2) (trace forked1) reverted\<rparr>
         in if reverted then
              (case revertCheckpoint db of
                 None \<Rightarrow> (Inl CheckpointError, db, this3, forked1)
               | Some db1 \<Rightarrow> (Inr (), db1, this3, forked1))
            else
              (case commitCheckpoint db of
                 None \<Rightarrow> (Inl CheckpointError, db, this3, forked1)
               | Some db1 \<Rightarrow> (Inr (), db1, this3\<lparr>merkleTrees := merkleTrees forked1\<rparr>, forked1))))"

definition merge ::
  "WorldStateDB \<Rightarrow> AvmPersistableStateManager \<Rightarrow> AvmPersistableStateManager
    \<Rightarrow> (Error + unit) \<times> WorldStateDB \<times> AvmPersistableStateManager \<times> AvmPersistableStateManager" where
  "merge db this forkedState = private_merge db this forkedState False"

definition reject ::
  "WorldStateDB \<Rightarrow> AvmPersistableStateManager \<Rightarrow> AvmPersistableStateManager
    \<Rightarrow> (Error + unit) \<times> WorldStateDB \<times> AvmPersistableStateManager \<times> AvmPersistableStateManager" where
  "reject db this forkedState = private_merge db this forkedState True"

definition getLeafOrLowLeafInfo ::
  "WorldStateDB \<Rightarrow> IndexedTreeId \<Rightarrow> nat \<Rightarrow> Error + (IndexedTreeLeafPreimage \<times> nat \<times> bool)" where
  "getLeafOrLowLeafInfo db treeId k =
     (case getPreviousValueIndex db treeId k of
        None \<Rightarrow> Inl (AssertionError LowLeafIndexNotFound)
      | Some (leafIndex, alreadyPresent) \<Rightarrow>
          (case getLeafPreimage db treeId leafIndex of
             None \<Rightarrow> Inl (AssertionError LowLeafPreimageUndefined)
           | Some preimage \<Rightarrow> Inr (preimage, leafIndex, alreadyPresent)))"


definition skipsOver :: "IndexedTreeLeafPreimage \<Rightarrow> nat \<Rightarrow> bool" where
  "skipsOver lowLeaf k \<longleftrightarrow>
     leafKey lowLeaf < k \<and> (nextIndex lowLeaf = 0 \<or> nextKey lowLeaf > k)"

definition writeStorage ::
  "Primitives \<Rightarrow> WorldStateDB \<Rightarrow> AvmPersistableStateManager \<Rightarrow> AztecAddress \<Rightarrow> Fr \<Rightarrow> Fr \<Rightarrow> bool
    \<Rightarrow> (Error + unit) \<times> WorldStateDB \<times> AvmPersistableStateManager" where
  "writeStorage P db this contractAddress slot v protocolWrite =
     (let leafSlot = computePublicDataTreeLeafSlot P contractAddress slot;
          this1 = this\<lparr>publicStorage := PublicStorage_write (publicStorage this) contractAddress slot v\<rparr>
      in if doMerkleOperations this1 then
           (case sequentialInsert db PUBLIC_DATA_TREE leafSlot v of
              None \<Rightarrow> (Inl (AssertionError PublicDataInsertionError), db, this1)
            | Some (db1, lowLeafWitness, insertionWitnessData) \<Rightarrow>
                (let lowLeafPreimage = leafPreimage lowLeafWitness;
                     lowLeafIndex = index lowLeafWitness;
                     lowLeafPath = siblingPath lowLeafWitness
                 in case insertionWitnessData of
                      None \<Rightarrow>
                        (if leafValue lowLeafPreimage = v then
                           (Inr (), db1,
                            this1\<lparr>trace := trace this1 @
                              [TracePublicStorageWrite contractAddress slot v protocolWrite
                                 (Some (lowLeafPreimage, lowLeafIndex, lowLeafPath, lowLeafPreimage, None))]\<rparr>)
                         else (Inl (AssertionError ValueMismatchOnWrite), db1, this1))
                    | Some insertion \<Rightarrow>
                        (let newLeafPreimage = lowLeafPreimage\<lparr>leafKey := leafSlot, leafValue := v\<rparr>;
                             insertionPath = siblingPath insertion
                         in (Inr (), db1,
                             this1\<lparr>trace := trace this1 @
                               [TracePublicStorageWrite contractAddress slot v protocolWrite
                                  (Some (lowLeafPreimage, lowLeafIndex, lowLeafPath, newLeafPreimage,
                                         Some insertionPath))]\<rparr>))))
         else
           (Inr (), db,
            this1\<lparr>trace := trace this1 @
              [TracePublicStorageWrite contractAddress slot v protocolWrite None]\<rparr>))"

definition readStorage ::
  "Primitives \<Rightarrow> WorldStateDB \<Rightarrow> AvmPersistableStateManager \<Rightarrow> AztecAddress \<Rightarrow> Fr
    \<Rightarrow> (Error + Fr) \<times> AvmPersistableStateManager" where
  "readStorage P db this contractAddress slot =
     (let v = fst (PublicStorage_read P db (publicStorage this) contractAddress slot);
          leafSlot = computePublicDataTreeLeafSlot P contractAddress slot
      in if doMerkleOperations this then
           (case getLeafOrLowLeafInfo db PUBLIC_DATA_TREE leafSlot of
              Inl e \<Rightarrow> (Inl e, this)
            | Inr (preimage, leafIndex, alreadyPresent) \<Rightarrow>
                (let path = getSiblingPath db (Indexed PUBLIC_DATA_TREE) leafIndex;
                     traced = this\<lparr>trace := trace this @
                       [TracePublicStorageRead contractAddress slot v (Some (preimage, leafIndex, path))]\<rparr>
                 in if alreadyPresent then
                      (if leafValue preimage = v then (Inr v, traced)
                       else (Inl (AssertionError ValueMismatchOnRead), this))
                    else
                      (if skipsOver preimage leafSlot then (Inr v, traced)
                       else (Inl (AssertionError PublicDataLowLeafSkip), this))))
         else
           (Inr v, this\<lparr>trace := trace this @ [TracePublicStorageRead contractAddress slot v None]\<rparr>))"

definition peekStorage ::
  "Primitives \<Rightarrow> WorldStateDB \<Rightarrow> AvmPersistableStateManager \<Rightarrow> AztecAddress \<Rightarrow> Fr
    \<Rightarrow> (Error + Fr) \<times> AvmPersistableStateManager" where
  "peekStorage P db this contractAddress slot =
     (let v = fst (PublicStorage_read P db (publicStorage this) contractAddress slot)
      in (Inr v, this))"

definition checkNoteHashExists ::
  "WorldStateDB \<Rightarrow> AvmPersistableStateManager \<Rightarrow> AztecAddress \<Rightarrow> Fr \<Rightarrow> Fr
    \<Rightarrow> (Error + bool) \<times> AvmPersistableStateManager" where
  "checkNoteHashExists db this contractAddress noteHash leafIndex =
     (let gotLeafValue = (case getCommitmentValue db leafIndex of None \<Rightarrow> 0 | Some x \<Rightarrow> x);
          exists = (gotLeafValue = noteHash)
      in if doMerkleOperations this then
           (let path = getSiblingPath db (AppendOnly NOTE_HASH_TREE) leafIndex
            in (Inr exists,
                this\<lparr>trace := trace this @
                  [TraceNoteHashCheck contractAddress gotLeafValue leafIndex exists (Some path)]\<rparr>))
         else
           (Inr exists,
            this\<lparr>trace := trace this @
              [TraceNoteHashCheck contractAddress gotLeafValue leafIndex exists None]\<rparr>))"

definition NullifierLeafPreimage_empty :: IndexedTreeLeafPreimage where
  "NullifierLeafPreimage_empty = \<lparr>leafKey = 0, leafValue = 0, nextKey = 0, nextIndex = 0\<rparr>"

definition getNullifierMembership ::
  "WorldStateDB \<Rightarrow> AvmPersistableStateManager \<Rightarrow> Fr
    \<Rightarrow> Error + (bool \<times> IndexedTreeLeafPreimage \<times> Fr \<times> SiblingPath)" where
  "getNullifierMembership db this siloedNullifier =
     (let exists = fst (NullifierManager_checkExists db (nullifiers this) siloedNullifier)
      in if doMerkleOperations this then
           (case getLeafOrLowLeafInfo db NULLIFIER_TREE siloedNullifier of
              Inl e \<Rightarrow> Inl e
            | Inr (preimage, leafIndex, alreadyPresent) \<Rightarrow>
                (let leafPath = getSiblingPath db (Indexed NULLIFIER_TREE) leafIndex
                 in if alreadyPresent \<noteq> exists then Inl (AssertionError NullifierTreeDisagrees)
                    else if exists then Inr (exists, preimage, leafIndex, leafPath)
                    else if skipsOver preimage siloedNullifier then
                      Inr (exists, preimage, leafIndex, leafPath)
                    else Inl (AssertionError NullifierLowLeafSkip)))
         else Inr (exists, NullifierLeafPreimage_empty, 0, EmptyPath))"

definition checkNullifierExists ::
  "Primitives \<Rightarrow> WorldStateDB \<Rightarrow> AvmPersistableStateManager \<Rightarrow> AztecAddress \<Rightarrow> Fr
    \<Rightarrow> (Error + bool) \<times> AvmPersistableStateManager" where
  "checkNullifierExists P db this contractAddress nullifier =
     (let siloedNullifier = siloNullifier P contractAddress nullifier
      in case getNullifierMembership db this siloedNullifier of
           Inl e \<Rightarrow> (Inl e, this)
         | Inr (exists, leafOrLowLeafPreimage, leafOrLowLeafIndex, leafOrLowLeafPath) \<Rightarrow>
             (if doMerkleOperations this then
                (Inr exists,
                 this\<lparr>trace := trace this @
                   [TraceNullifierCheck siloedNullifier exists
                      (Some (leafOrLowLeafPreimage, leafOrLowLeafIndex, leafOrLowLeafPath))]\<rparr>)
              else
                (Inr exists,
                 this\<lparr>trace := trace this @ [TraceNullifierCheck siloedNullifier exists None]\<rparr>)))"

definition writeSiloedNullifier ::
  "WorldStateDB \<Rightarrow> AvmPersistableStateManager \<Rightarrow> Fr
    \<Rightarrow> (Error + unit) \<times> WorldStateDB \<times> AvmPersistableStateManager" where
  "writeSiloedNullifier db this siloedNullifier =
     (if doMerkleOperations this then
        (case getLeafOrLowLeafInfo db NULLIFIER_TREE siloedNullifier of
           Inl e \<Rightarrow> (Inl e, db, this)
         | Inr (preimage, idx, alreadyPresent) \<Rightarrow>
             (if alreadyPresent then
                (let path = getSiblingPath db (Indexed NULLIFIER_TREE) idx
                 in (Inl NullifierCollisionError, db,
                     this\<lparr>trace := trace this @
                       [TraceNullifierCheck siloedNullifier alreadyPresent (Some (preimage, idx, path))]\<rparr>))
              else
                (case NullifierManager_append db (nullifiers this) siloedNullifier of
                   None \<Rightarrow> (Inl NullifierCollisionError, db, this)
                 | Some appended \<Rightarrow>
                     (let this1 = this\<lparr>nullifiers := appended\<rparr>
                      in case sequentialInsert db NULLIFIER_TREE siloedNullifier 0 of
                           None \<Rightarrow> (Inl TypeError, db, this1)
                         | Some (db1, lowLeafWitnessData, insertionWitnessData) \<Rightarrow>
                             (case insertionWitnessData of
                                None \<Rightarrow> (Inl TypeError, db1, this1)
                              | Some insertion \<Rightarrow>
                                  (Inr (), db1,
                                   this1\<lparr>trace := trace this1 @
                                     [TraceNewNullifier siloedNullifier
                                        (Some (leafPreimage lowLeafWitnessData, index lowLeafWitnessData,
                                               siblingPath lowLeafWitnessData, siblingPath insertion))]\<rparr>))))))
      else
        (case NullifierManager_append db (nullifiers this) siloedNullifier of
           None \<Rightarrow> (Inl NullifierCollisionError, db, this)
         | Some appended \<Rightarrow>
             (let this1 = this\<lparr>nullifiers := appended\<rparr>
              in (Inr (), db, this1\<lparr>trace := trace this1 @ [TraceNewNullifier siloedNullifier None]\<rparr>))))"

definition writeNullifier ::
  "Primitives \<Rightarrow> WorldStateDB \<Rightarrow> AvmPersistableStateManager \<Rightarrow> AztecAddress \<Rightarrow> Fr
    \<Rightarrow> (Error + unit) \<times> WorldStateDB \<times> AvmPersistableStateManager" where
  "writeNullifier P db this contractAddress nullifier =
     writeSiloedNullifier db this (siloNullifier P contractAddress nullifier)"

text \<open>
  The \<^verbatim>\<open>for ... of\<close> loop of \<^verbatim>\<open>writeSiloedNullifiersFromPrivate\<close>: the writes run in
  list order and the first one that throws ends the loop.
\<close>

fun writeEach ::
  "WorldStateDB \<Rightarrow> AvmPersistableStateManager \<Rightarrow> Fr list
    \<Rightarrow> (Error + unit) \<times> WorldStateDB \<times> AvmPersistableStateManager" where
  "writeEach db this [] = (Inr (), db, this)"
| "writeEach db this (n # ns) =
     (case writeSiloedNullifier db this n of
        (Inl e, db1, this1) \<Rightarrow> (Inl e, db1, this1)
      | (Inr u, db1, this1) \<Rightarrow> writeEach db1 this1 ns)"

definition isEmpty :: "Fr \<Rightarrow> bool" where
  "isEmpty n \<longleftrightarrow> n = 0"

definition writeSiloedNullifiersFromPrivate ::
  "WorldStateDB \<Rightarrow> AvmPersistableStateManager \<Rightarrow> Fr list
    \<Rightarrow> (Error + unit) \<times> WorldStateDB \<times> AvmPersistableStateManager" where
  "writeSiloedNullifiersFromPrivate db this siloedNullifiers =
     writeEach db this (filter (\<lambda>n. \<not> isEmpty n) siloedNullifiers)"

definition contractAddressIsCanonical :: "Primitives \<Rightarrow> AztecAddress \<Rightarrow> bool" where
  "contractAddressIsCanonical P contractAddress \<longleftrightarrow>
     contractAddress = CANONICAL_AUTH_REGISTRY_ADDRESS P \<or>
     contractAddress = DEPLOYER_CONTRACT_ADDRESS P \<or>
     contractAddress = REGISTERER_CONTRACT_ADDRESS P \<or>
     contractAddress = MULTI_CALL_ENTRYPOINT_ADDRESS P \<or>
     contractAddress = FEE_JUICE_ADDRESS P \<or>
     contractAddress = ROUTER_ADDRESS P"

text \<open>
  The part \<^verbatim>\<open>getContractInstance\<close> and \<^verbatim>\<open>getBytecode\<close> share: the lookup of the
  instance and, for a non-canonical address, the membership of its deployment nullifier
  and the assertion that the two agree.
\<close>

definition instanceAndMembership ::
  "Primitives \<Rightarrow> WorldStateDB \<Rightarrow> AvmPersistableStateManager \<Rightarrow> AztecAddress
    \<Rightarrow> Error + (ContractInstance option \<times> MembershipHint)" where
  "instanceAndMembership P db this contractAddress =
     (let instanceWithAddress = contractInstances db contractAddress;
          exists = (instanceWithAddress \<noteq> None)
      in if \<not> contractAddressIsCanonical P contractAddress then
           (let contractAddressNullifier =
                  siloNullifier P (DEPLOYER_CONTRACT_ADDRESS P) contractAddress
            in case getNullifierMembership db this contractAddressNullifier of
                 Inl e \<Rightarrow> Inl e
               | Inr (existsInTree, leafOrLowLeafPreimage, leafOrLowLeafIndex, leafOrLowLeafPath) \<Rightarrow>
                   (if exists = existsInTree then
                      Inr (instanceWithAddress, (leafOrLowLeafPreimage, leafOrLowLeafIndex, leafOrLowLeafPath))
                    else Inl (AssertionError ContractInstanceDisagrees)))
         else Inr (instanceWithAddress, (NullifierLeafPreimage_empty, 0, EmptyPath)))"




section \<open>Well-formed indexed trees\<close>

text \<open>
  The leaves of an indexed tree form a linked list sorted by key: a leaf with a successor
  (\<open>nextIndex \<noteq> 0\<close>) points at a leaf of the tree with a larger key. A seeded tree holds
  the sentinel key zero, so every key has a low leaf.
\<close>

definition linkedLeaves :: "IndexedTreeLeafPreimage list \<Rightarrow> bool" where
  "linkedLeaves ls \<longleftrightarrow>
     (\<forall>l\<in>set ls. nextIndex l \<noteq> 0 \<longrightarrow>
        leafKey l < nextKey l \<and> nextIndex l < length ls \<and> leafKey (ls ! nextIndex l) = nextKey l)"

definition seeded :: "IndexedTreeLeafPreimage list \<Rightarrow> bool" where
  "seeded ls \<longleftrightarrow> (\<exists>l\<in>set ls. leafKey l = 0)"

definition treesLinked :: "MerkleTrees \<Rightarrow> bool" where
  "treesLinked ts \<longleftrightarrow>
     linkedLeaves (publicDataTree ts) \<and> seeded (publicDataTree ts) \<and>
     linkedLeaves (nullifierTree ts) \<and> seeded (nullifierTree ts)"

definition wellFormedDB :: "WorldStateDB \<Rightarrow> bool" where
  "wellFormedDB db \<longleftrightarrow> treesLinked (trees db) \<and> (\<forall>ts\<in>set (checkpoints db). treesLinked ts)"

section \<open>The loop of writeSiloedNullifiersFromPrivate, as specified\<close>

text \<open>
  The specified behaviour of \<^verbatim>\<open>writeSiloedNullifiersFromPrivate\<close>: go through the list
  in order, skip a zero nullifier, write any other one with \<^verbatim>\<open>writeSiloedNullifier\<close>,
  and stop at the first write that throws.
\<close>

fun writeNonEmptyInOrder ::
  "WorldStateDB \<Rightarrow> AvmPersistableStateManager \<Rightarrow> Fr list
    \<Rightarrow> (Error + unit) \<times> WorldStateDB \<times> AvmPersistableStateManager" where
  "writeNonEmptyInOrder db this [] = (Inr (), db, this)"
| "writeNonEmptyInOrder db this (n # ns) =
     (if n = 0 then writeNonEmptyInOrder db this ns
      else (case writeSiloedNullifier db this n of
              (Inl e, db1, this1) \<Rightarrow> (Inl e, db1, this1)
            | (Inr u, db1, this1) \<Rightarrow> writeNonEmptyInOrder db1 this1 ns))"

section \<open>Example inputs\<close>

definition examplePrimitives :: Primitives where
  "examplePrimitives =
     \<lparr>computePublicDataTreeLeafSlot = (\<lambda>a s. 10 * a + s),
      siloNullifier = (\<lambda>a n. 100 * a + n),
      CANONICAL_AUTH_REGISTRY_ADDRESS = 1, DEPLOYER_CONTRACT_ADDRESS = 2,
      REGISTERER_CONTRACT_ADDRESS = 3, MULTI_CALL_ENTRYPOINT_ADDRESS = 4,
      FEE_JUICE_ADDRESS = 5, ROUTER_ADDRESS = 6\<rparr>"

definition sentinelLeaf :: IndexedTreeLeafPreimage where
  "sentinelLeaf = \<lparr>leafKey = 0, leafValue = 0, nextKey = 0, nextIndex = 0\<rparr>"

definition seededTrees :: MerkleTrees where
  "seededTrees =
     \<lparr>publicDataTree = [sentinelLeaf], nullifierTree = [sentinelLeaf],
      noteHashTree = [], l1ToL2MessageTree = []\<rparr>"

definition worldStateWith :: "MerkleTrees \<Rightarrow> WorldStateDB" where
  "worldStateWith ts =
     \<lparr>trees = ts, checkpoints = [], contractInstances = Map.empty,
      contractClasses = Map.empty, bytecodeCommitments = Map.empty,
      lowWitnessAfterUpdate = False\<rparr>"

definition rootManager :: "bool \<Rightarrow> AvmPersistableStateManager" where
  "rootManager doMerkle = create [] doMerkle 0 0"


text \<open>
  The nullifier tree of the scenario "insert nullifiers 7, 3, 10 sequentially into an
  empty indexed tree seeded with a sentinel zero leaf".
\<close>

definition scenarioNullifierTree :: "IndexedTreeLeafPreimage list" where
  "scenarioNullifierTree =
     [\<lparr>leafKey = 0, leafValue = 0, nextKey = 3, nextIndex = 2\<rparr>,
      \<lparr>leafKey = 7, leafValue = 0, nextKey = 10, nextIndex = 3\<rparr>,
      \<lparr>leafKey = 3, leafValue = 0, nextKey = 7, nextIndex = 1\<rparr>,
      \<lparr>leafKey = 10, leafValue = 0, nextKey = 0, nextIndex = 0\<rparr>]"

text \<open>
  Trees whose public data tree already holds the slot of address 7, slot 3 (leaf slot 73
  under \<open>examplePrimitives\<close>) with the value 5, as left by an earlier transaction.
\<close>

definition persistedSlotTrees :: MerkleTrees where
  "persistedSlotTrees =
     seededTrees\<lparr>publicDataTree :=
       [\<lparr>leafKey = 0, leafValue = 0, nextKey = 73, nextIndex = 1\<rparr>,
        \<lparr>leafKey = 73, leafValue = 5, nextKey = 0, nextIndex = 0\<rparr>]\<rparr>"

text \<open>
  A root state manager over the seeded trees writes 42 to address 7, slot 3 itself
  (\<open>rootWritten\<close>), or forks and the fork writes it (\<open>forkWritten\<close>); the fork is then
  merged (\<open>forkMerged\<close>) or rejected (\<open>forkRejected\<close>).
\<close>

definition rootWritten :: "bool \<Rightarrow> (Error + unit) \<times> WorldStateDB \<times> AvmPersistableStateManager" where
  "rootWritten doMerkle =
     writeStorage examplePrimitives (worldStateWith seededTrees) (rootManager doMerkle) 7 3 42 False"

definition forkWritten :: "bool \<Rightarrow> (Error + unit) \<times> WorldStateDB \<times> AvmPersistableStateManager" where
  "forkWritten doMerkle =
     (case fork (worldStateWith seededTrees) (rootManager doMerkle) of
        (db1, forked) \<Rightarrow> writeStorage examplePrimitives db1 forked 7 3 42 False)"

definition forkMerged ::
  "bool \<Rightarrow> (Error + unit) \<times> WorldStateDB \<times> AvmPersistableStateManager \<times> AvmPersistableStateManager" where
  "forkMerged doMerkle =
     (case forkWritten doMerkle of (r, db2, forked) \<Rightarrow> merge db2 (rootManager doMerkle) forked)"

definition forkRejected ::
  "bool \<Rightarrow> (Error + unit) \<times> WorldStateDB \<times> AvmPersistableStateManager \<times> AvmPersistableStateManager" where
  "forkRejected doMerkle =
     (case forkWritten doMerkle of (r, db2, forked) \<Rightarrow> reject db2 (rootManager doMerkle) forked)"

text \<open>
  The scenario "fork A writes slot (addr, 1) = 42; fork B (nested inside A) writes
  (addr, 1) = 99 then is rejected; reading (addr, 1) from A afterward": the outcome of the
  \<^verbatim>\<open>reject\<close> and of the read.
\<close>

definition nestedRejected ::
  "bool \<Rightarrow> (Error + unit) \<times> (Error + Fr) \<times> AvmPersistableStateManager" where
  "nestedRejected doMerkle =
     (case fork (worldStateWith seededTrees) (rootManager doMerkle) of
        (db1, forkA) \<Rightarrow>
          (case writeStorage examplePrimitives db1 forkA 7 3 42 False of
             (r1, db2, forkA1) \<Rightarrow>
               (case fork db2 forkA1 of
                  (db3, forkB) \<Rightarrow>
                    (case writeStorage examplePrimitives db3 forkB 7 3 99 False of
                       (r2, db4, forkB1) \<Rightarrow>
                         (case reject db4 forkA1 forkB1 of
                            (r3, db5, forkA2, forkB2) \<Rightarrow>
                              (r3, readStorage examplePrimitives db5 forkA2 7 3))))))"

text \<open>
  A root state manager over the seeded trees writes the siloed nullifier 7 twice: the
  outcome of the first write and the whole result of the second.
\<close>

definition nullifierWrittenTwice ::
  "bool \<Rightarrow> (Error + unit) \<times> (Error + unit) \<times> WorldStateDB \<times> AvmPersistableStateManager" where
  "nullifierWrittenTwice doMerkle =
     (case writeSiloedNullifier (worldStateWith seededTrees) (rootManager doMerkle) 7 of
        (r1, db1, this1) \<Rightarrow> (r1, writeSiloedNullifier db1 this1 7))"



text \<open>
  A root state manager in Merkle mode over the seeded trees forks, the fork writes the
  siloed nullifier 7, and the root rejects the fork.
\<close>

definition nullifierForkRejected ::
  "(Error + unit) \<times> WorldStateDB \<times> AvmPersistableStateManager \<times> AvmPersistableStateManager" where
  "nullifierForkRejected =
     (case fork (worldStateWith seededTrees) (rootManager True) of
        (db1, forked) \<Rightarrow>
          (case writeSiloedNullifier db1 forked 7 of
             (r, db2, forked1) \<Rightarrow> reject db2 (rootManager True) forked1))"

text \<open>
  A root state manager in Merkle mode over trees that hold 5 at the slot of address 7,
  slot 3 forks, the fork writes 42 to the slot, and the root rejects the fork.
\<close>

definition persistedForkRejected ::
  "(Error + unit) \<times> WorldStateDB \<times> AvmPersistableStateManager \<times> AvmPersistableStateManager" where
  "persistedForkRejected =
     (case fork ((worldStateWith persistedSlotTrees)\<lparr>lowWitnessAfterUpdate := True\<rparr>) (rootManager True) of
        (db1, forked) \<Rightarrow>
          (case writeStorage examplePrimitives db1 forked 7 3 42 False of
             (r, db2, forked1) \<Rightarrow> reject db2 (rootManager True) forked1))"

section \<open>Facts about the tree accessor\<close>

lemma previousValueIndex_None: "previousValueIndex ls k = None \<longleftrightarrow> (\<forall>l\<in>set ls. k < leafKey l)"
  by (induction ls) (auto split: option.splits if_splits)

lemma previousValueIndex_Some:
  "previousValueIndex ls k = Some i \<Longrightarrow>
     i < length ls \<and> leafKey (ls ! i) \<le> k \<and> (\<forall>l\<in>set ls. leafKey l \<le> k \<longrightarrow> leafKey l \<le> leafKey (ls ! i))"
proof (induction ls arbitrary: i)
  case Nil
  then show ?case by simp
next
  case (Cons l ls)
  show ?case
  proof (cases "previousValueIndex ls k")
    case None
    then have "\<forall>x\<in>set ls. k < leafKey x" by (simp add: previousValueIndex_None)
    with Cons.prems None show ?thesis by (auto split: if_splits)
  next
    case (Some j)
    from Cons.IH[OF Some] have j: "j < length ls" "leafKey (ls ! j) \<le> k"
      "\<forall>x\<in>set ls. leafKey x \<le> k \<longrightarrow> leafKey x \<le> leafKey (ls ! j)" by auto
    show ?thesis
    proof (cases "leafKey l \<le> k \<and> leafKey (ls ! j) \<le> leafKey l")
      case True
      with Cons.prems Some have "i = 0" by simp
      with True j show ?thesis by auto
    next
      case False
      with Cons.prems Some have "i = Suc j" by auto
      with False j show ?thesis by auto
    qed
  qed
qed

lemma insertLeaf_keys:
  assumes "insertLeaf after tid ls k v = Some (ls', low, ins)"
  shows "leafKey ` set ls' \<subseteq> insert k (leafKey ` set ls)"
proof -
  from assms obtain i where i: "previousValueIndex ls k = Some i"
    by (auto simp: insertLeaf_def split: option.splits)
  then have len: "i < length ls" using previousValueIndex_Some by blast
  have upd: "\<And>f. leafKey (f (ls ! i)) = leafKey (ls ! i) \<Longrightarrow> leafKey ` set (ls[i := f (ls ! i)]) \<subseteq> leafKey ` set ls"
  proof
    fix f x assume f: "leafKey (f (ls ! i)) = leafKey (ls ! i)" and "x \<in> leafKey ` set (ls[i := f (ls ! i)])"
    then obtain l where l: "l \<in> set (ls[i := f (ls ! i)])" "x = leafKey l" by auto
    then have "l \<in> insert (f (ls ! i)) (set ls)" using set_update_subset_insert by fastforce
    with l f len show "x \<in> leafKey ` set ls" by (auto simp: nth_mem image_iff)
  qed
  show ?thesis
  proof (cases "leafKey (ls ! i) = k")
    case True
    with assms i have "ls' = ls[i := (\<lambda>l. l\<lparr>leafValue := v\<rparr>) (ls ! i)]"
      by (simp add: insertLeaf_def Let_def)
    with upd[of "\<lambda>l. l\<lparr>leafValue := v\<rparr>"] show ?thesis by auto
  next
    case False
    with assms i have "ls' = ls[i := (\<lambda>l. l\<lparr>nextKey := k, nextIndex := length ls\<rparr>) (ls ! i)]
        @ [\<lparr>leafKey = k, leafValue = v, nextKey = nextKey (ls ! i), nextIndex = nextIndex (ls ! i)\<rparr>]"
      by (simp add: insertLeaf_def Let_def)
    with upd[of "\<lambda>l. l\<lparr>nextKey := k, nextIndex := length ls\<rparr>"] show ?thesis by auto
  qed
qed

lemma writeSiloedNullifier_adds:
  assumes "writeSiloedNullifier db this n = (r, db', this')"
  shows "nm_cache (nullifiers this') \<subseteq> insert n (nm_cache (nullifiers this))"
    and "leafKey ` set (nullifierTree (trees db')) \<subseteq> insert n (leafKey ` set (nullifierTree (trees db)))"
proof -
  show "nm_cache (nullifiers this') \<subseteq> insert n (nm_cache (nullifiers this))"
    using assms
    by (auto simp: writeSiloedNullifier_def NullifierManager_append_def Let_def
        split: if_splits sum.splits prod.splits option.splits)
  show "leafKey ` set (nullifierTree (trees db')) \<subseteq> insert n (leafKey ` set (nullifierTree (trees db)))"
  proof (cases "\<exists>ls low ins. insertLeaf (lowWitnessAfterUpdate db) (Indexed NULLIFIER_TREE) (nullifierTree (trees db)) n 0 = Some (ls, low, ins)
                  \<and> db' = db\<lparr>trees := (trees db)\<lparr>nullifierTree := ls\<rparr>\<rparr>")
    case True
    then show ?thesis using insertLeaf_keys by fastforce
  next
    case False
    with assms have "db' = db"
      by (auto simp: writeSiloedNullifier_def sequentialInsert_def indexedTree_def setIndexedTree_def Let_def
          split: if_splits sum.splits prod.splits option.splits)
    then show ?thesis by auto
  qed
qed

lemma writeEach_adds:
  "writeEach db this ns = (r, db', this') \<Longrightarrow>
     nm_cache (nullifiers this') \<subseteq> nm_cache (nullifiers this) \<union> set ns \<and>
     leafKey ` set (nullifierTree (trees db')) \<subseteq> leafKey ` set (nullifierTree (trees db)) \<union> set ns"
proof (induction ns arbitrary: db this)
  case Nil
  then show ?case by simp
next
  case (Cons n ns)
  obtain r1 db1 this1 where w: "writeSiloedNullifier db this n = (r1, db1, this1)"
    by (cases "writeSiloedNullifier db this n") auto
  note a = writeSiloedNullifier_adds[OF w]
  show ?case
  proof (cases r1)
    case (Inl e)
    with Cons.prems w have "db' = db1" "this' = this1" by auto
    with a show ?thesis by auto
  next
    case (Inr u)
    with Cons.prems w have "writeEach db1 this1 ns = (r, db', this')" by simp
    from Cons.IH[OF this] have b:
      "nm_cache (nullifiers this') \<subseteq> nm_cache (nullifiers this1) \<union> set ns"
      "leafKey ` set (nullifierTree (trees db')) \<subseteq> leafKey ` set (nullifierTree (trees db1)) \<union> set ns"
      by auto
    from a(1) b(1) have "nm_cache (nullifiers this') \<subseteq> nm_cache (nullifiers this) \<union> set (n # ns)"
      by auto
    moreover from a(2) b(2)
    have "leafKey ` set (nullifierTree (trees db')) \<subseteq> leafKey ` set (nullifierTree (trees db)) \<union> set (n # ns)"
      by (simp add: subset_iff) blast
    ultimately show ?thesis by simp
  qed
qed

lemma writeEach_filter:
  "writeEach db this (filter (\<lambda>n. \<not> isEmpty n) ns) = writeNonEmptyInOrder db this ns"
  by (induction ns arbitrary: db this) (auto simp: isEmpty_def split: prod.splits sum.splits)


section \<open>Note hash checks\<close>

text \<open>
  C8. For every contract address, note hash and leaf index, \<^verbatim>\<open>checkNoteHashExists\<close>
  returns true if and only if the leaf value at that index of the persistent note-hash
  tree, taken as zero when the tree has no leaf there, equals the given note hash. The
  result is always a boolean, never an error, with and without Merkle operations.
\<close>

theorem checkNoteHashExists_compares_leaf:
  "fst (checkNoteHashExists db this contractAddress noteHash leafIndex) =
     Inr ((case getCommitmentValue db leafIndex of None \<Rightarrow> 0 | Some x \<Rightarrow> x) = noteHash)
   \<and> fst (checkNoteHashExists db this contractAddress noteHash leafIndex) =
     Inr ((if leafIndex < length (noteHashTree (trees db))
           then noteHashTree (trees db) ! leafIndex else 0) = noteHash)"
  by (simp add: checkNoteHashExists_def getCommitmentValue_def getLeafValue_def
      appendOnlyTree_def Let_def)

theorem checkNoteHashExists_compares_leaf_witness:
  "fst (checkNoteHashExists (worldStateWith (seededTrees\<lparr>noteHashTree := [55, 66]\<rparr>))
          (rootManager True) 9 66 1) = Inr True
   \<and> fst (checkNoteHashExists (worldStateWith (seededTrees\<lparr>noteHashTree := [55, 66]\<rparr>))
          (rootManager True) 9 66 0) = Inr False
   \<and> fst (checkNoteHashExists (worldStateWith (seededTrees\<lparr>noteHashTree := [55, 66]\<rparr>))
          (rootManager False) 9 0 7) = Inr True"
  using checkNoteHashExists_compares_leaf
          [THEN conjunct2, of "worldStateWith (seededTrees\<lparr>noteHashTree := [55, 66]\<rparr>)" "rootManager True" 9 66 1]
        checkNoteHashExists_compares_leaf
          [THEN conjunct2, of "worldStateWith (seededTrees\<lparr>noteHashTree := [55, 66]\<rparr>)" "rootManager True" 9 66 0]
        checkNoteHashExists_compares_leaf
          [THEN conjunct2, of "worldStateWith (seededTrees\<lparr>noteHashTree := [55, 66]\<rparr>)" "rootManager False" 9 0 7]
  by (simp add: worldStateWith_def seededTrees_def)

section \<open>Nullifiers from private execution\<close>

text \<open>
  C10. For every list of siloed nullifiers, \<^verbatim>\<open>writeSiloedNullifiersFromPrivate\<close> does
  what the specified loop does: it writes the non-zero entries in list order with
  \<^verbatim>\<open>writeSiloedNullifier\<close> and skips the zero ones. Zero entries make no difference to
  the outcome, so they raise no collision error, and the only nullifiers that can be added
  to the pending cache or to the keys of the nullifier tree are the non-zero entries of
  the list.
\<close>

theorem writeSiloedNullifiersFromPrivate_skips_zero:
  "writeSiloedNullifiersFromPrivate db this ns = writeNonEmptyInOrder db this ns
   \<and> writeSiloedNullifiersFromPrivate db this ns = writeSiloedNullifiersFromPrivate db this (removeAll 0 ns)
   \<and> (\<forall>r db' this'. writeSiloedNullifiersFromPrivate db this ns = (r, db', this') \<longrightarrow>
        nm_cache (nullifiers this') \<subseteq> nm_cache (nullifiers this) \<union> (set ns - {0}) \<and>
        leafKey ` set (nullifierTree (trees db')) \<subseteq> leafKey ` set (nullifierTree (trees db)) \<union> (set ns - {0}))"
proof (intro conjI allI impI)
  show "writeSiloedNullifiersFromPrivate db this ns = writeNonEmptyInOrder db this ns"
    by (simp add: writeSiloedNullifiersFromPrivate_def writeEach_filter)
  have "filter (\<lambda>n. \<not> isEmpty n) (removeAll 0 ns) = filter (\<lambda>n. \<not> isEmpty n) ns"
    by (induction ns) (auto simp: isEmpty_def)
  then show "writeSiloedNullifiersFromPrivate db this ns = writeSiloedNullifiersFromPrivate db this (removeAll 0 ns)"
    by (simp add: writeSiloedNullifiersFromPrivate_def)
next
  fix r db' this'
  assume "writeSiloedNullifiersFromPrivate db this ns = (r, db', this')"
  then have w: "writeEach db this (filter (\<lambda>n. \<not> isEmpty n) ns) = (r, db', this')"
    by (simp add: writeSiloedNullifiersFromPrivate_def)
  have s: "set (filter (\<lambda>n. \<not> isEmpty n) ns) = set ns - {0}" by (auto simp: isEmpty_def)
  from writeEach_adds[OF w] s
  show "nm_cache (nullifiers this') \<subseteq> nm_cache (nullifiers this) \<union> (set ns - {0})"
    and "leafKey ` set (nullifierTree (trees db')) \<subseteq> leafKey ` set (nullifierTree (trees db)) \<union> (set ns - {0})"
    by auto
qed

theorem writeSiloedNullifiersFromPrivate_skips_zero_witness:
  "writeSiloedNullifiersFromPrivate (worldStateWith seededTrees) (rootManager False) [0, 7, 0, 3] =
     (Inr (), worldStateWith seededTrees,
      (rootManager False)\<lparr>nullifiers := NullifierManager {3, 7} None,
                            trace := [TraceNewNullifier 7 None, TraceNewNullifier 3 None]\<rparr>)
   \<and> writeNonEmptyInOrder (worldStateWith seededTrees) (rootManager False) [0, 7, 0, 3] =
     (Inr (), worldStateWith seededTrees,
      (rootManager False)\<lparr>nullifiers := NullifierManager {3, 7} None,
                            trace := [TraceNewNullifier 7 None, TraceNewNullifier 3 None]\<rparr>)
   \<and> nm_cache (nullifiers (snd (snd (writeSiloedNullifiersFromPrivate (worldStateWith seededTrees)
         (rootManager False) [0, 7, 0, 3])))) \<subseteq> {7, 3}"
proof -
  let ?r = "writeSiloedNullifiersFromPrivate (worldStateWith seededTrees) (rootManager False) [0, 7, 0, 3]"
  note t = writeSiloedNullifiersFromPrivate_skips_zero
             [of "worldStateWith seededTrees" "rootManager False" "[0, 7, 0, 3]"]
  have e: "?r = (Inr (), worldStateWith seededTrees,
      (rootManager False)\<lparr>nullifiers := NullifierManager {3, 7} None,
                            trace := [TraceNewNullifier 7 None, TraceNewNullifier 3 None]\<rparr>)"
    by (simp add: writeSiloedNullifiersFromPrivate_def isEmpty_def writeSiloedNullifier_def
        rootManager_def create_def NullifierManager_append_def NullifierManager_checkExists_def
        getNullifierIndex_def worldStateWith_def seededTrees_def sentinelLeaf_def)
  have c: "nm_cache (nullifiers (rootManager False)) = {}"
    by (simp add: rootManager_def create_def)
  from t have "?r = (fst ?r, fst (snd ?r), snd (snd ?r)) \<longrightarrow>
      nm_cache (nullifiers (snd (snd ?r))) \<subseteq> nm_cache (nullifiers (rootManager False)) \<union> (set [0, 7, 0, 3] - {0})"
    by blast
  then have s: "nm_cache (nullifiers (snd (snd ?r))) \<subseteq> {7, 3}"
    using c by auto
  from t have "?r = writeNonEmptyInOrder (worldStateWith seededTrees) (rootManager False) [0, 7, 0, 3]"
    by (rule conjunct1)
  then have "writeNonEmptyInOrder (worldStateWith seededTrees) (rootManager False) [0, 7, 0, 3] = ?r"
    by (rule sym)
  with e s show ?thesis by (simp only: simp_thms)
qed

section \<open>The sorted linked list of an indexed tree\<close>

lemma low_leaf_skips:
  assumes lk: "linkedLeaves ls" and p: "previousValueIndex ls k = Some i" and ne: "leafKey (ls ! i) \<noteq> k"
  shows "skipsOver (ls ! i) k"
proof -
  from previousValueIndex_Some[OF p] have i: "i < length ls" and le: "leafKey (ls ! i) \<le> k"
    and mx: "\<forall>l\<in>set ls. leafKey l \<le> k \<longrightarrow> leafKey l \<le> leafKey (ls ! i)" by auto
  from le ne have lt: "leafKey (ls ! i) < k" by simp
  have "nextIndex (ls ! i) = 0 \<or> k < nextKey (ls ! i)"
  proof (cases "nextIndex (ls ! i) = 0")
    case True
    then show ?thesis by simp
  next
    case False
    from i have "ls ! i \<in> set ls" by simp
    with lk False have a: "leafKey (ls ! i) < nextKey (ls ! i)" "nextIndex (ls ! i) < length ls"
      "leafKey (ls ! nextIndex (ls ! i)) = nextKey (ls ! i)"
      by (auto simp: linkedLeaves_def)
    from a(2) have "ls ! nextIndex (ls ! i) \<in> set ls" by simp
    with mx a(3) have "nextKey (ls ! i) \<le> k \<longrightarrow> nextKey (ls ! i) \<le> leafKey (ls ! i)" by metis
    with a(1) show ?thesis by auto
  qed
  with lt show ?thesis by (simp add: skipsOver_def)
qed

lemma update_keeps_keys:
  assumes "leafKey x = leafKey (ls ! i)" and "j < length ls"
  shows "leafKey (ls[i := x] ! j) = leafKey (ls ! j)"
  using assms by (cases "i = j") auto

lemma insertLeaf_cases:
  assumes "insertLeaf after tid ls k v = Some (ls', low, ins)"
  obtains i where "previousValueIndex ls k = Some i" "leafKey (ls ! i) = k"
      "ls' = ls[i := (ls ! i)\<lparr>leafValue := v\<rparr>]" "ins = None"
      "low = \<lparr>leafPreimage = (if after then (ls ! i)\<lparr>leafValue := v\<rparr> else ls ! i), index = i, siblingPath = SiblingPath tid i\<rparr>"
  | i where "previousValueIndex ls k = Some i" "leafKey (ls ! i) \<noteq> k"
      "ls' = ls[i := (ls ! i)\<lparr>nextKey := k, nextIndex := length ls\<rparr>] @
             [\<lparr>leafKey = k, leafValue = v, nextKey = nextKey (ls ! i), nextIndex = nextIndex (ls ! i)\<rparr>]"
      "ins = Some \<lparr>leafPreimage = \<lparr>leafKey = k, leafValue = v, nextKey = nextKey (ls ! i), nextIndex = nextIndex (ls ! i)\<rparr>,
                   index = length ls, siblingPath = SiblingPath tid (length ls)\<rparr>"
      "low = \<lparr>leafPreimage = ls ! i, index = i, siblingPath = SiblingPath tid i\<rparr>"
  using assms
  by (auto simp: insertLeaf_def Let_def split: option.splits if_splits)

lemma insertLeaf_linked:
  assumes lk: "linkedLeaves ls" and ins: "insertLeaf after tid ls k v = Some (ls', low, w)"
  shows "linkedLeaves ls'"
  using ins
proof (cases rule: insertLeaf_cases)
  case (1 i)
  from previousValueIndex_Some[OF 1(1)] have i: "i < length ls" by simp
  let ?x = "(ls ! i)\<lparr>leafValue := v\<rparr>"
  have keys: "\<And>j. j < length ls \<Longrightarrow> leafKey (ls' ! j) = leafKey (ls ! j)"
    using 1(3) update_keeps_keys[of ?x ls i] by simp
  have "\<And>l. l \<in> set ls' \<Longrightarrow> nextIndex l \<noteq> 0 \<Longrightarrow>
          leafKey l < nextKey l \<and> nextIndex l < length ls' \<and> leafKey (ls' ! nextIndex l) = nextKey l"
  proof -
    fix l assume l: "l \<in> set ls'" and nz: "nextIndex l \<noteq> 0"
    from l 1(3) have "l = ?x \<or> l \<in> set ls" using set_update_subset_insert by fastforce
    then obtain m where m: "m \<in> set ls" "leafKey m = leafKey l" "nextKey m = nextKey l" "nextIndex m = nextIndex l"
      using i by (cases "l = ?x") (auto intro: nth_mem)
    with lk nz have "leafKey m < nextKey m" "nextIndex m < length ls" "leafKey (ls ! nextIndex m) = nextKey m"
      by (auto simp: linkedLeaves_def)
    with m keys[of "nextIndex m"] 1(3) show
      "leafKey l < nextKey l \<and> nextIndex l < length ls' \<and> leafKey (ls' ! nextIndex l) = nextKey l"
      by simp
  qed
  then show ?thesis by (simp add: linkedLeaves_def)
next
  case (2 i)
  from previousValueIndex_Some[OF 2(1)] have i: "i < length ls" and le: "leafKey (ls ! i) \<le> k" by auto
  let ?x = "(ls ! i)\<lparr>nextKey := k, nextIndex := length ls\<rparr>"
  let ?new = "\<lparr>leafKey = k, leafValue = v, nextKey = nextKey (ls ! i), nextIndex = nextIndex (ls ! i)\<rparr>"
  have len: "length ls' = Suc (length ls)" using 2(3) by simp
  have keys: "\<And>j. j < length ls \<Longrightarrow> leafKey (ls' ! j) = leafKey (ls ! j)"
    using 2(3) update_keeps_keys[of ?x ls i] by (simp add: nth_append)
  have last: "ls' ! length ls = ?new" using 2(3) by (simp add: nth_append)
  from low_leaf_skips[OF lk 2(1) 2(2)] have sk: "skipsOver (ls ! i) k" .
  have oldleaf: "\<And>m. m \<in> set ls \<Longrightarrow> nextIndex m \<noteq> 0 \<Longrightarrow>
      leafKey m < nextKey m \<and> nextIndex m < length ls' \<and> leafKey (ls' ! nextIndex m) = nextKey m"
  proof -
    fix m assume "m \<in> set ls" "nextIndex m \<noteq> 0"
    with lk have "leafKey m < nextKey m" "nextIndex m < length ls" "leafKey (ls ! nextIndex m) = nextKey m"
      by (auto simp: linkedLeaves_def)
    with keys[of "nextIndex m"] len show
      "leafKey m < nextKey m \<and> nextIndex m < length ls' \<and> leafKey (ls' ! nextIndex m) = nextKey m"
      by simp
  qed
  have "\<And>l. l \<in> set ls' \<Longrightarrow> nextIndex l \<noteq> 0 \<Longrightarrow>
          leafKey l < nextKey l \<and> nextIndex l < length ls' \<and> leafKey (ls' ! nextIndex l) = nextKey l"
  proof -
    fix l assume l: "l \<in> set ls'" and nz: "nextIndex l \<noteq> 0"
    from l 2(3) have "l = ?new \<or> l \<in> set (ls[i := ?x])" by auto
    then have "l = ?new \<or> l = ?x \<or> l \<in> set ls" using set_update_subset_insert by fastforce
    then consider (new) "l = ?new" | (upd) "l = ?x" | (old) "l \<in> set ls" by blast
    then show "leafKey l < nextKey l \<and> nextIndex l < length ls' \<and> leafKey (ls' ! nextIndex l) = nextKey l"
    proof cases
      case new
      with nz have nz': "nextIndex (ls ! i) \<noteq> 0" by simp
      from i have "ls ! i \<in> set ls" by simp
      from oldleaf[OF this nz'] sk nz' new show ?thesis by (simp add: skipsOver_def)
    next
      case upd
      with le 2(2) len last show ?thesis by simp
    next
      case old
      from oldleaf[OF this nz] show ?thesis .
    qed
  qed
  then show ?thesis by (simp add: linkedLeaves_def)
qed

lemma insertLeaf_seeded:
  assumes sd: "seeded ls" and ins: "insertLeaf after tid ls k v = Some (ls', low, w)"
  shows "seeded ls'"
proof -
  from sd obtain l where l: "l \<in> set ls" "leafKey l = 0" by (auto simp: seeded_def)
  then obtain j where j: "j < length ls" "ls ! j = l" by (auto simp: in_set_conv_nth)
  from ins have "j < length ls' \<and> leafKey (ls' ! j) = leafKey (ls ! j)"
  proof (cases rule: insertLeaf_cases)
    case (1 i)
    with j update_keeps_keys[of "(ls ! i)\<lparr>leafValue := v\<rparr>" ls i j] show ?thesis by simp
  next
    case (2 i)
    with j update_keeps_keys[of "(ls ! i)\<lparr>nextKey := k, nextIndex := length ls\<rparr>" ls i j]
    show ?thesis by (simp add: nth_append)
  qed
  with j l have "ls' ! j \<in> set ls'" "leafKey (ls' ! j) = 0" by auto
  then show ?thesis unfolding seeded_def by blast
qed

lemma seeded_has_low_leaf: "seeded ls \<Longrightarrow> \<exists>i. previousValueIndex ls k = Some i"
  by (cases "previousValueIndex ls k") (auto simp: previousValueIndex_None seeded_def)

section \<open>Well-formedness is an invariant of the database\<close>

lemma wellFormedDB_initial: "wellFormedDB (worldStateWith seededTrees)"
  by (simp add: wellFormedDB_def worldStateWith_def treesLinked_def seededTrees_def
      linkedLeaves_def seeded_def sentinelLeaf_def)

lemma scenarioNullifierTree_built:
  "\<exists>t1 t2 w1 w2 w3 i1 i2 i3.
     insertLeaf after tid [sentinelLeaf] 7 0 = Some (t1, w1, i1) \<and>
     insertLeaf after tid t1 3 0 = Some (t2, w2, i2) \<and>
     insertLeaf after tid t2 10 0 = Some (scenarioNullifierTree, w3, i3)"
  by (simp add: insertLeaf_def sentinelLeaf_def scenarioNullifierTree_def Let_def)

lemma treesLinked_setIndexedTree:
  assumes "treesLinked ts" and "linkedLeaves ls" and "seeded ls"
  shows "treesLinked (setIndexedTree ts t ls)"
  using assms by (cases t) (auto simp: treesLinked_def setIndexedTree_def)

lemma treesLinked_indexedTree:
  "treesLinked ts \<Longrightarrow> linkedLeaves (indexedTree ts t) \<and> seeded (indexedTree ts t)"
  by (cases t) (auto simp: treesLinked_def indexedTree_def)

lemma wellFormedDB_sequentialInsert:
  assumes wf: "wellFormedDB db" and si: "sequentialInsert db t k v = Some (db', low, ins)"
  shows "wellFormedDB db'"
proof -
  from si obtain ls where
    il: "insertLeaf (lowWitnessAfterUpdate db) (Indexed t) (indexedTree (trees db) t) k v = Some (ls, low, ins)"
    and db': "db' = db\<lparr>trees := setIndexedTree (trees db) t ls\<rparr>"
    by (auto simp: sequentialInsert_def split: option.splits)
  from wf have tl: "treesLinked (trees db)" by (simp add: wellFormedDB_def)
  from treesLinked_indexedTree[OF tl, of t] insertLeaf_linked[OF _ il] insertLeaf_seeded[OF _ il]
  have "linkedLeaves ls" "seeded ls" by auto
  from treesLinked_setIndexedTree[OF tl this] wf db' show ?thesis
    by (simp add: wellFormedDB_def)
qed

lemma wellFormedDB_createCheckpoint: "wellFormedDB db \<Longrightarrow> wellFormedDB (createCheckpoint db)"
  by (simp add: wellFormedDB_def createCheckpoint_def)

lemma wellFormedDB_commitCheckpoint:
  "wellFormedDB db \<Longrightarrow> commitCheckpoint db = Some db' \<Longrightarrow> wellFormedDB db'"
  by (auto simp: wellFormedDB_def commitCheckpoint_def split: list.splits)

lemma wellFormedDB_revertCheckpoint:
  "wellFormedDB db \<Longrightarrow> revertCheckpoint db = Some db' \<Longrightarrow> wellFormedDB db'"
  by (auto simp: wellFormedDB_def revertCheckpoint_def split: list.splits)

lemma wellFormedDB_writeStorage:
  assumes "wellFormedDB db" and "writeStorage P db this a s v pw = (r, db', this')"
  shows "wellFormedDB db'"
proof (cases "\<exists>low ins. sequentialInsert db PUBLIC_DATA_TREE (computePublicDataTreeLeafSlot P a s) v = Some (db', low, ins)")
  case True
  with assms(1) show ?thesis using wellFormedDB_sequentialInsert by blast
next
  case False
  with assms(2) have "db' = db"
    by (auto simp: writeStorage_def Let_def split: if_splits option.splits prod.splits)
  with assms(1) show ?thesis by simp
qed

lemma wellFormedDB_writeSiloedNullifier:
  assumes "wellFormedDB db" and "writeSiloedNullifier db this n = (r, db', this')"
  shows "wellFormedDB db'"
proof (cases "\<exists>low ins. sequentialInsert db NULLIFIER_TREE n 0 = Some (db', low, ins)")
  case True
  with assms(1) show ?thesis using wellFormedDB_sequentialInsert by blast
next
  case False
  with assms(2) have "db' = db"
    by (auto simp: writeSiloedNullifier_def Let_def split: if_splits option.splits prod.splits sum.splits)
  with assms(1) show ?thesis by simp
qed

lemma wellFormedDB_fork: "wellFormedDB db \<Longrightarrow> wellFormedDB (fst (fork db this))"
  by (simp add: fork_def wellFormedDB_createCheckpoint)

lemma wellFormedDB_private_merge:
  assumes "wellFormedDB db" and "private_merge db this forkedState reverted = (r, db', this', forked')"
  shows "wellFormedDB db'"
  using assms
  by (auto simp: private_merge_def Let_def
      split: if_splits option.splits
      intro: wellFormedDB_commitCheckpoint wellFormedDB_revertCheckpoint)

section \<open>The low leaf skips an absent key\<close>

lemma getLeafOrLowLeafInfo_skips:
  assumes "linkedLeaves (indexedTree (trees db) t)"
    and "getLeafOrLowLeafInfo db t k = Inr (lowLeaf, i, False)"
  shows "skipsOver lowLeaf k"
proof -
  from assms(2) have p: "previousValueIndex (indexedTree (trees db) t) k = Some i"
    and ne: "leafKey (indexedTree (trees db) t ! i) \<noteq> k"
    and ll: "lowLeaf = indexedTree (trees db) t ! i"
    by (auto simp: getLeafOrLowLeafInfo_def getPreviousValueIndex_def getLeafPreimage_def
        split: option.splits if_splits)
  from low_leaf_skips[OF assms(1) p ne] ll show ?thesis by simp
qed

lemma getLeafOrLowLeafInfo_errors:
  "getLeafOrLowLeafInfo db t k = Inl e \<Longrightarrow>
     e = AssertionError LowLeafIndexNotFound \<or> e = AssertionError LowLeafPreimageUndefined"
  by (auto simp: getLeafOrLowLeafInfo_def split: option.splits)

text \<open>
  C3. For every indexed-tree lookup on a persistent accessor whose public data tree and
  nullifier tree are sorted linked lists: when the queried key is not present
  (\<^verbatim>\<open>alreadyPresent == false\<close>), the low-leaf preimage that \<^verbatim>\<open>getLeafOrLowLeafInfo\<close>
  returns has a smaller key and either no successor or a successor key above the queried
  key; so \<^verbatim>\<open>readStorage\<close> never fails its low-leaf assertion and neither does
  \<^verbatim>\<open>getNullifierMembership\<close>. The trees seeded with the sentinel leaf are such lists and
  every operation of the accessor and of the state manager keeps them so
  (\<open>wellFormedDB_initial\<close>, \<open>wellFormedDB_sequentialInsert\<close> and the lemmas after it).
\<close>

theorem low_leaf_skips_absent_key:
  assumes "linkedLeaves (publicDataTree (trees db))" and "linkedLeaves (nullifierTree (trees db))"
  shows "(getLeafOrLowLeafInfo db treeId k = Inr (lowLeaf, i, False) \<longrightarrow>
            leafKey lowLeaf < k \<and> (nextIndex lowLeaf = 0 \<or> k < nextKey lowLeaf))
    \<and> fst (readStorage P db this a s) \<noteq> Inl (AssertionError PublicDataLowLeafSkip)
    \<and> getNullifierMembership db this n \<noteq> Inl (AssertionError NullifierLowLeafSkip)"
proof (intro conjI impI)
  have lk: "\<And>t. linkedLeaves (indexedTree (trees db) t)"
    using assms by (case_tac t) (auto simp: indexedTree_def)
  {
    assume "getLeafOrLowLeafInfo db treeId k = Inr (lowLeaf, i, False)"
    from getLeafOrLowLeafInfo_skips[OF lk this]
    show "leafKey lowLeaf < k" and "nextIndex lowLeaf = 0 \<or> k < nextKey lowLeaf"
      by (auto simp: skipsOver_def)
  }
  show "fst (readStorage P db this a s) \<noteq> Inl (AssertionError PublicDataLowLeafSkip)"
    using getLeafOrLowLeafInfo_skips[OF lk[of PUBLIC_DATA_TREE]]
    by (auto simp: readStorage_def Let_def split: sum.splits if_splits
        dest: getLeafOrLowLeafInfo_errors)
  show "getNullifierMembership db this n \<noteq> Inl (AssertionError NullifierLowLeafSkip)"
    using getLeafOrLowLeafInfo_skips[OF lk[of NULLIFIER_TREE]]
    by (auto simp: getNullifierMembership_def Let_def split: sum.splits if_splits
        dest: getLeafOrLowLeafInfo_errors)
qed

theorem low_leaf_skips_absent_key_witness:
  "linkedLeaves (publicDataTree (trees (worldStateWith (seededTrees\<lparr>nullifierTree := scenarioNullifierTree\<rparr>))))
   \<and> linkedLeaves scenarioNullifierTree
   \<and> getLeafOrLowLeafInfo (worldStateWith (seededTrees\<lparr>nullifierTree := scenarioNullifierTree\<rparr>)) NULLIFIER_TREE 5
       = Inr (\<lparr>leafKey = 3, leafValue = 0, nextKey = 7, nextIndex = 1\<rparr>, 2, False)
   \<and> (3::nat) < 5 \<and> (5::nat) < 7
   \<and> getNullifierMembership (worldStateWith (seededTrees\<lparr>nullifierTree := scenarioNullifierTree\<rparr>))
        (rootManager True) 5
       = Inr (False, \<lparr>leafKey = 3, leafValue = 0, nextKey = 7, nextIndex = 1\<rparr>, 2,
              SiblingPath (Indexed NULLIFIER_TREE) 2)"
proof -
  let ?db = "worldStateWith (seededTrees\<lparr>nullifierTree := scenarioNullifierTree\<rparr>)"
  let ?low = "\<lparr>leafKey = 3, leafValue = 0, nextKey = 7, nextIndex = 1\<rparr>"
  have a: "linkedLeaves (publicDataTree (trees ?db))"
    by (simp add: worldStateWith_def seededTrees_def linkedLeaves_def sentinelLeaf_def)
  have b: "linkedLeaves (nullifierTree (trees ?db))"
    by (simp add: worldStateWith_def seededTrees_def linkedLeaves_def scenarioNullifierTree_def)
  have c: "getLeafOrLowLeafInfo ?db NULLIFIER_TREE 5 = Inr (?low, 2, False)"
    by (simp add: getLeafOrLowLeafInfo_def getPreviousValueIndex_def getLeafPreimage_def
        worldStateWith_def seededTrees_def scenarioNullifierTree_def indexedTree_def)
  have f: "fst (NullifierManager_checkExists ?db (nullifiers (rootManager True)) 5) = False"
    by (simp add: rootManager_def create_def Let_def NullifierManager_checkExists_def
        getNullifierIndex_def worldStateWith_def seededTrees_def scenarioNullifierTree_def)
  have g: "doMerkleOperations (rootManager True)" by (simp add: rootManager_def create_def)
  have d: "getNullifierMembership ?db (rootManager True) 5 =
       Inr (False, ?low, 2, SiblingPath (Indexed NULLIFIER_TREE) 2)"
    by (simp add: getNullifierMembership_def c f g getSiblingPath_def skipsOver_def)
  from low_leaf_skips_absent_key[OF a b, of NULLIFIER_TREE 5 ?low 2] c
  have "leafKey ?low < 5 \<and> (nextIndex ?low = 0 \<or> 5 < nextKey ?low)" by blast
  then have e: "(3::nat) < 5 \<and> (5::nat) < 7" by simp
  from b have b': "linkedLeaves scenarioNullifierTree"
    by (simp add: worldStateWith_def seededTrees_def)
  from a b' c d e show ?thesis by (simp only: simp_thms)
qed

section \<open>Storage reads after writes\<close>

lemma indexedTree_setIndexedTree [simp]: "indexedTree (setIndexedTree ts t ls) t = ls"
  by (cases t) (simp_all add: indexedTree_def setIndexedTree_def)

lemma map_leafKey_update:
  assumes "leafKey x = leafKey (ls ! i)"
  shows "map leafKey (ls[i := x]) = map leafKey ls"
proof (cases "i < length ls")
  case True
  with assms show ?thesis by (simp add: map_update list_update_same_conv)
next
  case False
  then have "ls[i := x] = ls" by (simp add: list_update_beyond)
  then show ?thesis by simp
qed

lemma previousValueIndex_keys:
  "map leafKey ls = map leafKey ls' \<Longrightarrow> previousValueIndex ls k = previousValueIndex ls' k"
proof (induction ls arbitrary: ls')
  case Nil
  then show ?case by simp
next
  case (Cons l ls)
  then obtain l' ms where ls': "ls' = l' # ms" and k: "leafKey l = leafKey l'"
    and m: "map leafKey ls = map leafKey ms"
    by (cases ls') auto
  from Cons.IH[OF m] have eq: "previousValueIndex ls k = previousValueIndex ms k" .
  have nth: "\<And>j. j < length ls \<Longrightarrow> leafKey (ls ! j) = leafKey (ms ! j)"
    using m by (metis length_map nth_map)
  show ?case
  proof (cases "previousValueIndex ms k")
    case None
    with eq k ls' show ?thesis by simp
  next
    case (Some j)
    then have "j < length ms" using previousValueIndex_Some by blast
    then have "j < length ls" using m by (metis length_map)
    with nth have "leafKey (ls ! j) = leafKey (ms ! j)" by simp
    with Some eq k ls' show ?thesis by simp
  qed
qed

lemma previousValueIndex_appended:
  assumes "leafKey new = k" and "\<forall>l\<in>set ls. leafKey l \<noteq> k"
  shows "previousValueIndex (ls @ [new]) k = Some (length ls)"
proof (cases "previousValueIndex (ls @ [new]) k")
  case None
  with assms(1) show ?thesis by (auto simp: previousValueIndex_None)
next
  case (Some j)
  from previousValueIndex_Some[OF Some] assms(1)
  have j: "j < Suc (length ls)" and le: "leafKey ((ls @ [new]) ! j) \<le> k"
    and ge: "k \<le> leafKey ((ls @ [new]) ! j)" by auto
  have "j = length ls"
  proof (rule ccontr)
    assume "j \<noteq> length ls"
    with j have "j < length ls" by simp
    then have "(ls @ [new]) ! j \<in> set ls" by (simp add: nth_append)
    with assms(2) le ge show False by auto
  qed
  with Some show ?thesis by simp
qed

lemma insertLeaf_then_found:
  assumes "insertLeaf after tid ls k v = Some (ls', low, ins)"
  shows "\<exists>i. previousValueIndex ls' k = Some i \<and> i < length ls' \<and>
             leafKey (ls' ! i) = k \<and> leafValue (ls' ! i) = v"
  using assms
proof (cases rule: insertLeaf_cases)
  case (1 i)
  from previousValueIndex_Some[OF 1(1)] have i: "i < length ls" by simp
  have "map leafKey ls' = map leafKey ls"
    using 1(3) by (simp add: map_leafKey_update)
  from previousValueIndex_keys[OF this] 1(1) have "previousValueIndex ls' k = Some i" by simp
  with i 1 show ?thesis by simp
next
  case (2 i)
  from previousValueIndex_Some[OF 2(1)] have i: "i < length ls" and le: "leafKey (ls ! i) \<le> k"
    and mx: "\<forall>l\<in>set ls. leafKey l \<le> k \<longrightarrow> leafKey l \<le> leafKey (ls ! i)" by auto
  let ?ls1 = "ls[i := (ls ! i)\<lparr>nextKey := k, nextIndex := length ls\<rparr>]"
  have none: "\<forall>l\<in>set ls. leafKey l \<noteq> k" using mx le 2(2) by fastforce
  have "map leafKey ?ls1 = map leafKey ls" by (simp add: map_leafKey_update)
  then have "leafKey ` set ?ls1 = leafKey ` set ls" by (metis set_map)
  with none have "\<forall>l\<in>set ?ls1. leafKey l \<noteq> k" by (metis imageI image_iff)
  from previousValueIndex_appended[OF _ this, of "\<lparr>leafKey = k, leafValue = v, nextKey = nextKey (ls ! i), nextIndex = nextIndex (ls ! i)\<rparr>"] 2(3)
  have "previousValueIndex ls' k = Some (length ls)" by simp
  with 2(3) show ?thesis by (simp add: nth_append)
qed

lemma sequentialInsert_then_found:
  assumes "sequentialInsert db t k v = Some (db', low, ins)"
  shows "\<exists>pre i. getLeafOrLowLeafInfo db' t k = Inr (pre, i, True) \<and> leafValue pre = v"
proof -
  from assms obtain ls where
    il: "insertLeaf (lowWitnessAfterUpdate db) (Indexed t) (indexedTree (trees db) t) k v = Some (ls, low, ins)"
    and db': "db' = db\<lparr>trees := setIndexedTree (trees db) t ls\<rparr>"
    by (auto simp: sequentialInsert_def split: option.splits)
  from insertLeaf_then_found[OF il] db' show ?thesis
    by (auto simp: getLeafOrLowLeafInfo_def getPreviousValueIndex_def getLeafPreimage_def)
qed

lemma writeStorage_success:
  assumes "writeStorage P db this a s v pw = (Inr (), db', this')"
  shows "publicStorage this' = PublicStorage_write (publicStorage this) a s v"
    and "doMerkleOperations this' = doMerkleOperations this"
    and "nullifiers this' = nullifiers this"
    and "doMerkleOperations this \<Longrightarrow>
           \<exists>low ins. sequentialInsert db PUBLIC_DATA_TREE (computePublicDataTreeLeafSlot P a s) v = Some (db', low, ins)"
    and "\<not> doMerkleOperations this \<Longrightarrow> db' = db"
  using assms
  by (auto simp: writeStorage_def Let_def split: if_splits option.splits prod.splits)

lemma readHereOrParent_written:
  "readHereOrParent (PublicStorage_write ps a s v) a s = Some v"
  by (cases ps) (simp add: PublicStorage_write_def)

lemma readHereOrParent_merged:
  "ps_cache incoming (a, s) = Some v \<Longrightarrow>
     readHereOrParent (PublicStorage_acceptAndMerge ps incoming) a s = Some v"
  by (simp add: PublicStorage_acceptAndMerge_def)

lemma readStorage_hit:
  assumes "readHereOrParent (publicStorage this) a s = Some v"
    and "doMerkleOperations this \<Longrightarrow>
           \<exists>pre i. getLeafOrLowLeafInfo db PUBLIC_DATA_TREE (computePublicDataTreeLeafSlot P a s) = Inr (pre, i, True)
                    \<and> leafValue pre = v"
  shows "fst (readStorage P db this a s) = Inr v"
  using assms
  by (cases "doMerkleOperations this") (auto simp: readStorage_def PublicStorage_read_def Let_def)

lemma getLeafOrLowLeafInfo_trees:
  "trees db = trees db' \<Longrightarrow> getLeafOrLowLeafInfo db t k = getLeafOrLowLeafInfo db' t k"
  by (auto simp: getLeafOrLowLeafInfo_def getPreviousValueIndex_def getLeafPreimage_def
      split: option.splits)

lemma write_then_read:
  assumes "writeStorage P db this a s v pw = (Inr (), db1, this1)"
  shows "fst (readStorage P db1 this1 a s) = Inr v"
proof (rule readStorage_hit)
  note w = writeStorage_success[OF assms]
  show "readHereOrParent (publicStorage this1) a s = Some v"
    by (simp add: w(1) readHereOrParent_written)
  assume "doMerkleOperations this1"
  with w(2) w(4) obtain low ins where
    "sequentialInsert db PUBLIC_DATA_TREE (computePublicDataTreeLeafSlot P a s) v = Some (db1, low, ins)"
    by auto
  from sequentialInsert_then_found[OF this]
  show "\<exists>pre i. getLeafOrLowLeafInfo db1 PUBLIC_DATA_TREE (computePublicDataTreeLeafSlot P a s) = Inr (pre, i, True)
                    \<and> leafValue pre = v" .
qed

lemma merge_success:
  assumes "merge db this forkedState = (Inr (), db', this', forked')"
  shows "publicStorage this' = PublicStorage_acceptAndMerge (publicStorage this) (publicStorage forkedState)"
    and "doMerkleOperations this' = doMerkleOperations this"
    and "trees db' = trees db"
  using assms
  by (auto simp: merge_def private_merge_def commitCheckpoint_def Let_def
      split: if_splits option.splits list.splits)

lemma write_merge_then_read:
  assumes w: "writeStorage P db forkedState a s v pw = (Inr (), db1, forked1)"
    and m: "merge db1 parent forked1 = (Inr (), db2, parent2, forked2)"
    and d: "doMerkleOperations parent = doMerkleOperations forkedState"
  shows "fst (readStorage P db2 parent2 a s) = Inr v"
proof (rule readStorage_hit)
  note ws = writeStorage_success[OF w]
  note ms = merge_success[OF m]
  have "ps_cache (publicStorage forked1) (a, s) = Some v"
    by (simp add: ws(1) PublicStorage_write_def)
  then show "readHereOrParent (publicStorage parent2) a s = Some v"
    by (simp add: ms(1) readHereOrParent_merged)
  assume "doMerkleOperations parent2"
  with ms(2) d ws(4) obtain low ins where
    "sequentialInsert db PUBLIC_DATA_TREE (computePublicDataTreeLeafSlot P a s) v = Some (db1, low, ins)"
    by auto
  from sequentialInsert_then_found[OF this] getLeafOrLowLeafInfo_trees[OF ms(3)]
  show "\<exists>pre i. getLeafOrLowLeafInfo db2 PUBLIC_DATA_TREE (computePublicDataTreeLeafSlot P a s) = Inr (pre, i, True)
                    \<and> leafValue pre = v" by simp
qed

lemma storageRead_absent:
  assumes "computePublicDataTreeLeafSlot P a s \<notin> leafKey ` set (publicDataTree (trees db))"
  shows "storageRead P db a s = 0"
proof -
  have "\<And>i. previousValueIndex (publicDataTree (trees db)) (computePublicDataTreeLeafSlot P a s) = Some i \<Longrightarrow>
          leafKey (publicDataTree (trees db) ! i) \<noteq> computePublicDataTreeLeafSlot P a s"
    using assms previousValueIndex_Some by (metis image_eqI nth_mem)
  then show ?thesis
    by (auto simp: storageRead_def getPreviousValueIndex_def indexedTree_def Let_def split: option.splits)
qed

lemma read_never_written:
  assumes c: "readHereOrParent (publicStorage this) a s = None"
    and t: "computePublicDataTreeLeafSlot P a s \<notin> leafKey ` set (publicDataTree (trees db))"
    and wf: "doMerkleOperations this \<Longrightarrow>
               linkedLeaves (publicDataTree (trees db)) \<and> seeded (publicDataTree (trees db))"
  shows "fst (readStorage P db this a s) = Inr 0"
proof (cases "doMerkleOperations this")
  case False
  with c storageRead_absent[OF t] show ?thesis
    by (simp add: readStorage_def PublicStorage_read_def Let_def)
next
  case True
  let ?k = "computePublicDataTreeLeafSlot P a s"
  let ?ls = "publicDataTree (trees db)"
  from wf[OF True] seeded_has_low_leaf obtain i where i: "previousValueIndex ?ls ?k = Some i" by blast
  from previousValueIndex_Some[OF i] have len: "i < length ?ls" by simp
  with t have ne: "leafKey (?ls ! i) \<noteq> ?k" by (metis image_eqI nth_mem)
  from wf[OF True] low_leaf_skips[OF _ i ne] have sk: "skipsOver (?ls ! i) ?k" by simp
  have "getLeafOrLowLeafInfo db PUBLIC_DATA_TREE ?k = Inr (?ls ! i, i, False)"
    using i len ne
    by (simp add: getLeafOrLowLeafInfo_def getPreviousValueIndex_def getLeafPreimage_def indexedTree_def)
  with True c sk storageRead_absent[OF t] show ?thesis
    by (simp add: readStorage_def PublicStorage_read_def Let_def)
qed

lemma read_persisted:
  assumes c: "readHereOrParent (publicStorage this) a s = None"
    and t: "getLeafOrLowLeafInfo db PUBLIC_DATA_TREE (computePublicDataTreeLeafSlot P a s) = Inr (pre, i, True)"
  shows "fst (readStorage P db this a s) = Inr (leafValue pre)"
proof -
  from t have "storageRead P db a s = leafValue pre"
    by (auto simp: storageRead_def getLeafOrLowLeafInfo_def Let_def split: option.splits)
  with c t show ?thesis
    by (simp add: readStorage_def PublicStorage_read_def Let_def)
qed

section \<open>The example states\<close>

lemma rootManager_simps:
  "doMerkleOperations (rootManager m) = m"
  "publicStorage (rootManager m) = PublicStorage Map.empty None"
  "nullifiers (rootManager m) = NullifierManager {} None"
  "trace (rootManager m) = []"
  "alreadyMergedIntoParent (rootManager m) = False"
  by (simp_all add: rootManager_def create_def)

lemma examplePrimitives_slot: "computePublicDataTreeLeafSlot examplePrimitives 7 3 = 73"
  by (simp add: examplePrimitives_def)

lemma worldStateWith_simps:
  "trees (worldStateWith ts) = ts" "checkpoints (worldStateWith ts) = []"
  by (simp_all add: worldStateWith_def)

lemma seededTrees_wellFormed:
  "linkedLeaves (publicDataTree seededTrees)" "seeded (publicDataTree seededTrees)"
  "73 \<notin> leafKey ` set (publicDataTree seededTrees)"
  by (simp_all add: seededTrees_def linkedLeaves_def seeded_def sentinelLeaf_def)

lemma readStorage_cached:
  assumes "readHereOrParent (publicStorage this) a s = Some v"
    and "doMerkleOperations this \<Longrightarrow>
           \<exists>pre i present.
              getLeafOrLowLeafInfo db PUBLIC_DATA_TREE (computePublicDataTreeLeafSlot P a s) = Inr (pre, i, present)
              \<and> (if present then leafValue pre = v else skipsOver pre (computePublicDataTreeLeafSlot P a s))"
  shows "fst (readStorage P db this a s) = Inr v"
  using assms
  by (cases "doMerkleOperations this") (auto simp: readStorage_def PublicStorage_read_def Let_def split: if_splits)

lemma writeStorage_plain:
  "\<not> doMerkleOperations this \<Longrightarrow>
     writeStorage P db this a s v pw =
       (Inr (), db,
        this\<lparr>publicStorage := PublicStorage_write (publicStorage this) a s v,
             trace := trace this @ [TracePublicStorageWrite a s v pw None]\<rparr>)"
  by (simp add: writeStorage_def Let_def)

lemma seeded_lookup_absent:
  assumes "trees db = seededTrees" and "0 < k"
  shows "getLeafOrLowLeafInfo db t k = Inr (sentinelLeaf, 0, False)"
  using assms
  by (cases t) (simp_all add: getLeafOrLowLeafInfo_def getPreviousValueIndex_def getLeafPreimage_def
      seededTrees_def indexedTree_def sentinelLeaf_def)

lemma root_reads_zero:
  "fst (readStorage examplePrimitives (worldStateWith seededTrees) (rootManager m) 7 3) = Inr 0"
  by (rule read_never_written)
     (simp_all add: rootManager_simps worldStateWith_simps examplePrimitives_slot seededTrees_wellFormed)

lemma fork_simps:
  "trees (fst (fork db this)) = trees db"
  "checkpoints (fst (fork db this)) = trees db # checkpoints db"
  "alreadyMergedIntoParent (snd (fork db this)) = False"
  "doMerkleOperations (snd (fork db this)) = doMerkleOperations this"
  "publicStorage (snd (fork db this)) = PublicStorage Map.empty (Some (publicStorage this))"
  "lowWitnessAfterUpdate (fst (fork db this)) = lowWitnessAfterUpdate db"
  by (simp_all add: fork_def createCheckpoint_def PublicStorage_fork_def)

lemma seeded_insert_slot:
  assumes "trees db = seededTrees"
  shows "\<exists>db' low ins. sequentialInsert db PUBLIC_DATA_TREE 73 v = Some (db', low, Some ins)
            \<and> checkpoints db' = checkpoints db"
  using assms
  by (simp add: sequentialInsert_def insertLeaf_def seededTrees_def
      indexedTree_def sentinelLeaf_def Let_def)

lemma writeStorage_inserts:
  assumes "sequentialInsert db PUBLIC_DATA_TREE (computePublicDataTreeLeafSlot P a s) v = Some (db', low, Some ins)"
  shows "fst (writeStorage P db this a s v pw) = Inr ()"
    and "doMerkleOperations this \<Longrightarrow> fst (snd (writeStorage P db this a s v pw)) = db'"
    and "publicStorage (snd (snd (writeStorage P db this a s v pw))) = PublicStorage_write (publicStorage this) a s v"
    and "doMerkleOperations (snd (snd (writeStorage P db this a s v pw))) = doMerkleOperations this"
    and "alreadyMergedIntoParent (snd (snd (writeStorage P db this a s v pw))) = alreadyMergedIntoParent this"
  using assms by (simp_all add: writeStorage_def Let_def)

lemma rootWritten_ok: "fst (rootWritten m) = Inr ()"
proof -
  from seeded_insert_slot[of "worldStateWith seededTrees" 42] obtain db' low ins where
    "sequentialInsert (worldStateWith seededTrees) PUBLIC_DATA_TREE 73 42 = Some (db', low, Some ins)"
    by (auto simp: worldStateWith_simps)
  then show ?thesis
    unfolding rootWritten_def by (intro writeStorage_inserts(1)) (simp add: examplePrimitives_slot)
qed

lemma forkWritten_state:
  "fst (forkWritten m) = Inr ()"
  "checkpoints (fst (snd (forkWritten m))) = [seededTrees]"
  "alreadyMergedIntoParent (snd (snd (forkWritten m))) = False"
  "ps_cache (publicStorage (snd (snd (forkWritten m)))) (7, 3) = Some 42"
  "doMerkleOperations (snd (snd (forkWritten m))) = m"
proof -
  let ?db1 = "fst (fork (worldStateWith seededTrees) (rootManager m))"
  let ?f = "snd (fork (worldStateWith seededTrees) (rootManager m))"
  have fw: "forkWritten m = writeStorage examplePrimitives ?db1 ?f 7 3 42 False"
    by (simp add: forkWritten_def split_beta)
  have "trees ?db1 = seededTrees" by (simp add: fork_simps worldStateWith_simps)
  from seeded_insert_slot[OF this, of 42] obtain db' low ins where
    si: "sequentialInsert ?db1 PUBLIC_DATA_TREE (computePublicDataTreeLeafSlot examplePrimitives 7 3) 42
          = Some (db', low, Some ins)"
    and cp: "checkpoints db' = checkpoints ?db1"
    by (auto simp: examplePrimitives_slot)
  note w = writeStorage_inserts[OF si, of ?f False]
  show "fst (forkWritten m) = Inr ()" using w(1) fw by simp
  show "alreadyMergedIntoParent (snd (snd (forkWritten m))) = False"
    using w(5) fw by (simp add: fork_simps)
  show "ps_cache (publicStorage (snd (snd (forkWritten m)))) (7, 3) = Some 42"
    using w(3) fw by (simp add: PublicStorage_write_def)
  show "doMerkleOperations (snd (snd (forkWritten m))) = m"
    using w(4) fw by (simp add: fork_simps rootManager_simps)
  show "checkpoints (fst (snd (forkWritten m))) = [seededTrees]"
  proof (cases m)
    case True
    with w(2) fw cp show ?thesis by (simp add: fork_simps rootManager_simps worldStateWith_simps)
  next
    case False
    then have "\<not> doMerkleOperations ?f" by (simp add: fork_simps rootManager_simps)
    then have "fst (snd (writeStorage examplePrimitives ?db1 ?f 7 3 42 False)) = ?db1"
      by (simp add: writeStorage_plain)
    then show ?thesis unfolding fw by (simp add: fork_simps worldStateWith_simps)
  qed
qed

lemma forkMerged_ok: "fst (forkMerged m) = Inr ()"
  by (simp add: forkMerged_def split_beta merge_def private_merge_def forkWritten_state
      commitCheckpoint_def Let_def)

lemma forkRejected_state:
  "fst (forkRejected m) = Inr ()"
  "trees (fst (snd (forkRejected m))) = seededTrees"
  "readHereOrParent (publicStorage (fst (snd (snd (forkRejected m))))) 7 3 = Some 42"
  "doMerkleOperations (fst (snd (snd (forkRejected m)))) = m"
  by (simp_all add: forkRejected_def split_beta reject_def private_merge_def forkWritten_state
      revertCheckpoint_def Let_def rootManager_simps readHereOrParent_merged)

lemma rejected_reads_written:
  "fst (readStorage examplePrimitives (fst (snd (forkRejected m)))
          (fst (snd (snd (forkRejected m)))) 7 3) = Inr 42"
proof (rule readStorage_cached)
  show "readHereOrParent (publicStorage (fst (snd (snd (forkRejected m))))) 7 3 = Some 42"
    by (rule forkRejected_state)
  from seeded_lookup_absent[OF forkRejected_state(2), of 73 m PUBLIC_DATA_TREE]
  show "\<exists>pre i present.
          getLeafOrLowLeafInfo (fst (snd (forkRejected m))) PUBLIC_DATA_TREE
            (computePublicDataTreeLeafSlot examplePrimitives 7 3) = Inr (pre, i, present)
          \<and> (if present then leafValue pre = 42
              else skipsOver pre (computePublicDataTreeLeafSlot examplePrimitives 7 3))"
    by (auto simp: examplePrimitives_slot skipsOver_def sentinelLeaf_def)
qed

lemma reject_simps:
  assumes "\<not> alreadyMergedIntoParent forkedState" and "checkpoints db \<noteq> []"
  shows "fst (reject db this forkedState) = Inr ()"
    and "publicStorage (fst (snd (snd (reject db this forkedState)))) =
           PublicStorage_acceptAndMerge (publicStorage this) (publicStorage forkedState)"
    and "doMerkleOperations (fst (snd (snd (reject db this forkedState)))) = doMerkleOperations this"
  using assms
  by (simp_all add: reject_def private_merge_def revertCheckpoint_def Let_def split: list.splits)

lemma nestedRejected_value:
  "fst (nestedRejected False) = Inr ()" "fst (snd (nestedRejected False)) = Inr 99"
proof -
  let ?db1 = "fst (fork (worldStateWith seededTrees) (rootManager False))"
  let ?A = "snd (fork (worldStateWith seededTrees) (rootManager False))"
  let ?A1 = "snd (snd (writeStorage examplePrimitives ?db1 ?A 7 3 42 False))"
  let ?db3 = "fst (fork ?db1 ?A1)"
  let ?B = "snd (fork ?db1 ?A1)"
  let ?B1 = "snd (snd (writeStorage examplePrimitives ?db3 ?B 7 3 99 False))"
  let ?R = "reject ?db3 ?A1 ?B1"
  have nA: "\<not> doMerkleOperations ?A" by (simp add: fork_simps rootManager_simps)
  then have nA1: "\<not> doMerkleOperations ?A1" by (simp add: writeStorage_plain)
  then have nB: "\<not> doMerkleOperations ?B" by (simp add: fork_simps)
  have wA: "fst (snd (writeStorage examplePrimitives ?db1 ?A 7 3 42 False)) = ?db1"
    using nA by (simp add: writeStorage_plain)
  have wB: "fst (snd (writeStorage examplePrimitives ?db3 ?B 7 3 99 False)) = ?db3"
    using nB by (simp add: writeStorage_plain)
  have n: "nestedRejected False = (fst ?R, readStorage examplePrimitives (fst (snd ?R)) (fst (snd (snd ?R))) 7 3)"
    by (simp add: nestedRejected_def split_beta wA wB)
  have aB: "\<not> alreadyMergedIntoParent ?B1"
    using nB by (simp add: writeStorage_plain fork_simps)
  have cB: "checkpoints ?db3 \<noteq> []" by (simp add: fork_simps)
  note r = reject_simps[OF aB cB, of ?A1]
  have "ps_cache (publicStorage ?B1) (7, 3) = Some 99"
    using nB by (simp add: writeStorage_plain PublicStorage_write_def)
  then have c: "readHereOrParent (publicStorage (fst (snd (snd ?R)))) 7 3 = Some 99"
    by (simp add: r(2) readHereOrParent_merged)
  have "\<not> doMerkleOperations (fst (snd (snd ?R)))" using nA1 by (simp add: r(3))
  with c have "fst (readStorage examplePrimitives (fst (snd ?R)) (fst (snd (snd ?R))) 7 3) = Inr 99"
    by (intro readStorage_cached) simp_all
  with n r(1) show "fst (nestedRejected False) = Inr ()" "fst (snd (nestedRejected False)) = Inr 99"
    by simp_all
qed

section \<open>Rejecting a fork\<close>

lemma reject_accepts_cache:
  assumes "\<not> alreadyMergedIntoParent forkedState"
    and "ps_cache (publicStorage forkedState) (a, s) = Some v"
    and "reject db this forkedState = (r, db', this', forked')"
  shows "readHereOrParent (publicStorage this') a s = Some v"
  using assms
  by (auto simp: reject_def private_merge_def Let_def readHereOrParent_merged
      split: option.splits)

text \<open>
  C1. The claim is that after \<^verbatim>\<open>fork()\<close>, a \<^verbatim>\<open>writeStorage(address, slot, value)\<close> in
  the fork and \<^verbatim>\<open>reject(fork)\<close>, the parent's \<^verbatim>\<open>readStorage(address, slot)\<close> returns what
  it returned before the fork. The code's \<^verbatim>\<open>_merge\<close> accepts the fork's value cache and
  nullifier cache into the parent before it looks at \<^verbatim>\<open>reverted\<close>
  (\<open>reject_accepts_cache\<close>), so the parent reads the rejected value. On the seeded trees a
  root state manager reads 0 at address 7, slot 3; after its fork wrote 42 there and was
  rejected it reads 42, with and without Merkle operations; and in the scenario of the
  nested forks A and B the read from A gives B's rejected 99 rather than 42.
\<close>

theorem reject_keeps_forked_write:
  "fst (readStorage examplePrimitives (worldStateWith seededTrees) (rootManager False) 7 3) = Inr 0
   \<and> fst (forkWritten False) = Inr ()
   \<and> fst (forkRejected False) = Inr ()
   \<and> fst (readStorage examplePrimitives (fst (snd (forkRejected False)))
              (fst (snd (snd (forkRejected False)))) 7 3) = Inr 42
   \<and> fst (readStorage examplePrimitives (worldStateWith seededTrees) (rootManager True) 7 3) = Inr 0
   \<and> fst (forkWritten True) = Inr ()
   \<and> fst (forkRejected True) = Inr ()
   \<and> fst (readStorage examplePrimitives (fst (snd (forkRejected True)))
              (fst (snd (snd (forkRejected True)))) 7 3) = Inr 42
   \<and> fst (nestedRejected False) = Inr ()
   \<and> fst (snd (nestedRejected False)) = Inr 99"
  by (simp only: root_reads_zero forkWritten_state forkRejected_state rejected_reads_written
      nestedRejected_value simp_thms)

section \<open>Writing and reading storage\<close>

text \<open>
  C5, as the claim states it, fails: a slot that neither this state manager nor an
  ancestor wrote reads as the value the persistent tree holds for it, which need not be
  zero. Over trees that hold 5 at the slot of address 7, slot 3, a new root state manager
  has no entry for the slot and reads 5, with and without Merkle operations.
\<close>

theorem unwritten_slot_reads_persisted_value:
  "readHereOrParent (publicStorage (rootManager False)) 7 3 = None
   \<and> fst (readStorage examplePrimitives (worldStateWith persistedSlotTrees) (rootManager False) 7 3) = Inr 5
   \<and> readHereOrParent (publicStorage (rootManager True)) 7 3 = None
   \<and> fst (readStorage examplePrimitives (worldStateWith persistedSlotTrees) (rootManager True) 7 3) = Inr 5"
proof -
  have l: "getLeafOrLowLeafInfo (worldStateWith persistedSlotTrees) PUBLIC_DATA_TREE
             (computePublicDataTreeLeafSlot examplePrimitives 7 3)
           = Inr (\<lparr>leafKey = 73, leafValue = 5, nextKey = 0, nextIndex = 0\<rparr>, 1, True)"
    by (simp add: examplePrimitives_slot getLeafOrLowLeafInfo_def getPreviousValueIndex_def
        getLeafPreimage_def worldStateWith_simps persistedSlotTrees_def seededTrees_def indexedTree_def)
  have c: "\<And>m. readHereOrParent (publicStorage (rootManager m)) 7 3 = None"
    by (simp add: rootManager_simps)
  from read_persisted[OF c l] c show ?thesis by simp
qed

text \<open>
  C5, amended. For all (address, slot, value): after a \<^verbatim>\<open>writeStorage(address, slot,
  value)\<close> that returned, \<^verbatim>\<open>readStorage(address, slot)\<close> in the same state manager
  returns value; after that fork is merged into a parent with the same Merkle mode, the
  parent's \<^verbatim>\<open>readStorage(address, slot)\<close> returns value too. For any (address, slot)
  with no entry in the value cache of this state manager or of an ancestor and no leaf in
  the persistent public data tree, \<^verbatim>\<open>readStorage\<close> returns 0 (in Merkle mode on a seeded,
  linked tree); with no cache entry and a leaf in the persistent tree it returns the
  leaf's value. Whenever \<^verbatim>\<open>readStorage\<close> returns, in either mode, it returns the value
  the value cache resolves.
\<close>

theorem storage_write_then_read:
  "(writeStorage P db this a s v pw = (Inr (), db1, this1) \<longrightarrow>
      fst (readStorage P db1 this1 a s) = Inr v)
   \<and> (writeStorage P db forkedState a s v pw = (Inr (), db1, forked1) \<and>
      merge db1 parent forked1 = (Inr (), db2, parent2, forked2) \<and>
      doMerkleOperations parent = doMerkleOperations forkedState \<longrightarrow>
      fst (readStorage P db2 parent2 a s) = Inr v)
   \<and> (readHereOrParent (publicStorage this) a s = None \<and>
      computePublicDataTreeLeafSlot P a s \<notin> leafKey ` set (publicDataTree (trees db)) \<and>
      (doMerkleOperations this \<longrightarrow>
         linkedLeaves (publicDataTree (trees db)) \<and> seeded (publicDataTree (trees db))) \<longrightarrow>
      fst (readStorage P db this a s) = Inr 0)
   \<and> (readHereOrParent (publicStorage this) a s = None \<and>
      getLeafOrLowLeafInfo db PUBLIC_DATA_TREE (computePublicDataTreeLeafSlot P a s) = Inr (pre, i, True) \<longrightarrow>
      fst (readStorage P db this a s) = Inr (leafValue pre))
   \<and> (readStorage P db this a s = (Inr v', this') \<longrightarrow>
      v' = fst (PublicStorage_read P db (publicStorage this) a s))"
proof (intro conjI impI)
  show "writeStorage P db this a s v pw = (Inr (), db1, this1) \<Longrightarrow>
      fst (readStorage P db1 this1 a s) = Inr v"
    by (rule write_then_read)
  show "writeStorage P db forkedState a s v pw = (Inr (), db1, forked1) \<and>
      merge db1 parent forked1 = (Inr (), db2, parent2, forked2) \<and>
      doMerkleOperations parent = doMerkleOperations forkedState \<Longrightarrow>
      fst (readStorage P db2 parent2 a s) = Inr v"
    using write_merge_then_read by blast
  show "readHereOrParent (publicStorage this) a s = None \<and>
      computePublicDataTreeLeafSlot P a s \<notin> leafKey ` set (publicDataTree (trees db)) \<and>
      (doMerkleOperations this \<longrightarrow>
         linkedLeaves (publicDataTree (trees db)) \<and> seeded (publicDataTree (trees db))) \<Longrightarrow>
      fst (readStorage P db this a s) = Inr 0"
    using read_never_written by blast
  show "readHereOrParent (publicStorage this) a s = None \<and>
      getLeafOrLowLeafInfo db PUBLIC_DATA_TREE (computePublicDataTreeLeafSlot P a s) = Inr (pre, i, True) \<Longrightarrow>
      fst (readStorage P db this a s) = Inr (leafValue pre)"
    using read_persisted by blast
  show "readStorage P db this a s = (Inr v', this') \<Longrightarrow>
      v' = fst (PublicStorage_read P db (publicStorage this) a s)"
    by (auto simp: readStorage_def Let_def split: if_splits sum.splits prod.splits)
qed

theorem storage_write_then_read_witness:
  "fst (rootWritten True) = Inr ()
   \<and> fst (readStorage examplePrimitives (fst (snd (rootWritten True))) (snd (snd (rootWritten True))) 7 3) = Inr 42
   \<and> fst (forkWritten True) = Inr ()
   \<and> fst (forkMerged True) = Inr ()
   \<and> fst (readStorage examplePrimitives (fst (snd (forkMerged True))) (fst (snd (snd (forkMerged True)))) 7 3) = Inr 42
   \<and> fst (readStorage examplePrimitives (worldStateWith seededTrees) (rootManager True) 7 3) = Inr 0
   \<and> fst (readStorage examplePrimitives (worldStateWith persistedSlotTrees) (rootManager True) 7 3) = Inr 5"
proof -
  let ?db0 = "worldStateWith seededTrees"
  let ?root = "rootManager True"
  let ?W = "rootWritten True"
  let ?F = "fork ?db0 ?root"
  let ?FW = "forkWritten True"
  let ?FM = "forkMerged True"
  note t = storage_write_then_read
  have w: "writeStorage examplePrimitives ?db0 ?root 7 3 42 False = (Inr (), fst (snd ?W), snd (snd ?W))"
    using rootWritten_ok[of True] by (simp add: rootWritten_def prod_eq_iff)
  from t[where P = examplePrimitives and db = ?db0 and this = ?root and a = 7 and s = 3 and v = 42
             and pw = False and ?db1.0 = "fst (snd ?W)" and ?this1.0 = "snd (snd ?W)"] w
  have r1: "fst (readStorage examplePrimitives (fst (snd ?W)) (snd (snd ?W)) 7 3) = Inr 42"
    by blast
  have fw: "writeStorage examplePrimitives (fst ?F) (snd ?F) 7 3 42 False = (Inr (), fst (snd ?FW), snd (snd ?FW))"
    using forkWritten_state(1)[of True] by (simp add: forkWritten_def split_beta prod_eq_iff)
  have fm: "merge (fst (snd ?FW)) ?root (snd (snd ?FW)) =
              (Inr (), fst (snd ?FM), fst (snd (snd ?FM)), snd (snd (snd ?FM)))"
    using forkMerged_ok[of True] by (simp add: forkMerged_def split_beta prod_eq_iff)
  have d: "doMerkleOperations ?root = doMerkleOperations (snd ?F)" by (simp add: fork_simps)
  from t[where P = examplePrimitives and db = "fst ?F" and forkedState = "snd ?F" and a = 7 and s = 3
             and v = 42 and pw = False and ?db1.0 = "fst (snd ?FW)" and ?forked1.0 = "snd (snd ?FW)"
             and parent = ?root and ?db2.0 = "fst (snd ?FM)" and ?parent2.0 = "fst (snd (snd ?FM))"
             and ?forked2.0 = "snd (snd (snd ?FM))"] fw fm d
  have r2: "fst (readStorage examplePrimitives (fst (snd ?FM)) (fst (snd (snd ?FM))) 7 3) = Inr 42"
    by blast
  have c: "readHereOrParent (publicStorage ?root) 7 3 = None" by (simp add: rootManager_simps)
  have k: "computePublicDataTreeLeafSlot examplePrimitives 7 3 \<notin> leafKey ` set (publicDataTree (trees ?db0))"
    by (simp add: examplePrimitives_slot worldStateWith_simps seededTrees_wellFormed)
  have wf: "linkedLeaves (publicDataTree (trees ?db0)) \<and> seeded (publicDataTree (trees ?db0))"
    by (simp add: worldStateWith_simps seededTrees_wellFormed)
  from t[where P = examplePrimitives and db = ?db0 and this = ?root and a = 7 and s = 3] c k wf
  have r3: "fst (readStorage examplePrimitives ?db0 ?root 7 3) = Inr 0"
    by blast
  have l: "getLeafOrLowLeafInfo (worldStateWith persistedSlotTrees) PUBLIC_DATA_TREE
             (computePublicDataTreeLeafSlot examplePrimitives 7 3)
           = Inr (\<lparr>leafKey = 73, leafValue = 5, nextKey = 0, nextIndex = 0\<rparr>, 1, True)"
    by (simp add: examplePrimitives_slot getLeafOrLowLeafInfo_def getPreviousValueIndex_def
        getLeafPreimage_def worldStateWith_simps persistedSlotTrees_def seededTrees_def indexedTree_def)
  from t[where P = examplePrimitives and db = "worldStateWith persistedSlotTrees" and this = ?root
             and a = 7 and s = 3
             and pre = "\<lparr>leafKey = 73, leafValue = 5, nextKey = 0, nextIndex = 0\<rparr>" and i = 1] c l
  have r4: "fst (readStorage examplePrimitives (worldStateWith persistedSlotTrees) ?root 7 3) = Inr 5"
    by simp
  from rootWritten_ok[of True] forkWritten_state(1)[of True] forkMerged_ok[of True] r1 r2 r3 r4
  show ?thesis by (simp only: simp_thms)
qed

section \<open>Contract instances and bytecode\<close>


lemma getNullifierMembership_errors:
  "getNullifierMembership db this n = Inl e \<Longrightarrow> \<exists>f. e = AssertionError f"
  by (auto simp: getNullifierMembership_def Let_def
      split: sum.splits if_splits prod.splits dest: getLeafOrLowLeafInfo_errors)



lemma instanceAndMembership_errors:
  "instanceAndMembership P db this a = Inl e \<Longrightarrow> \<exists>f. e = AssertionError f"
  by (auto simp: instanceAndMembership_def Let_def
      split: sum.splits if_splits prod.splits dest: getNullifierMembership_errors)







section \<open>Overwriting a slot in Merkle mode\<close>

text \<open>
  Whether \<^verbatim>\<open>writeStorage\<close> can overwrite a slot that the public data tree already holds
  depends on the low-leaf witness \<^verbatim>\<open>sequentialInsert\<close> returns for an in-place update.
  If the witness shows the leaf after the update, the assertion of the branch without an
  insertion witness holds for every write. If it shows the leaf before the update, the
  assertion fails whenever the new value differs from the old one: over the trees that
  hold 5 at the slot of address 7, slot 3, writing 42 there fails, and writing 5 does not.
\<close>

lemma update_witness_after:
  assumes "lowWitnessAfterUpdate db"
    and "sequentialInsert db t k v = Some (db', low, None)"
  shows "leafValue (leafPreimage low) = v"
  using assms
  by (auto simp: sequentialInsert_def insertLeaf_def Let_def split: option.splits if_splits)

lemma overwrite_with_witness_after:
  assumes "lowWitnessAfterUpdate db"
  shows "fst (writeStorage P db this a s v pw) \<noteq> Inl (AssertionError ValueMismatchOnWrite)"
  using update_witness_after[OF assms]
  by (auto simp: writeStorage_def Let_def split: option.splits if_splits prod.splits)

lemma persistedSlot_update:
  "sequentialInsert ((worldStateWith persistedSlotTrees)\<lparr>lowWitnessAfterUpdate := after\<rparr>)
     PUBLIC_DATA_TREE 73 v =
   Some ((worldStateWith persistedSlotTrees)\<lparr>lowWitnessAfterUpdate := after,
            trees := persistedSlotTrees\<lparr>publicDataTree :=
              [\<lparr>leafKey = 0, leafValue = 0, nextKey = 73, nextIndex = 1\<rparr>,
               \<lparr>leafKey = 73, leafValue = v, nextKey = 0, nextIndex = 0\<rparr>]\<rparr>\<rparr>,
         \<lparr>leafPreimage = \<lparr>leafKey = 73, leafValue = (if after then v else 5), nextKey = 0, nextIndex = 0\<rparr>,
          index = 1, siblingPath = SiblingPath (Indexed PUBLIC_DATA_TREE) 1\<rparr>,
         None)"
  by (simp add: sequentialInsert_def insertLeaf_def worldStateWith_def persistedSlotTrees_def
      seededTrees_def indexedTree_def setIndexedTree_def Let_def)

lemma overwrite_with_witness_before:
  "fst (writeStorage examplePrimitives (worldStateWith persistedSlotTrees) (rootManager True) 7 3 42 False)
     = Inl (AssertionError ValueMismatchOnWrite)"
  "fst (writeStorage examplePrimitives (worldStateWith persistedSlotTrees) (rootManager True) 7 3 5 False)
     = Inr ()"
  "fst (writeStorage examplePrimitives ((worldStateWith persistedSlotTrees)\<lparr>lowWitnessAfterUpdate := True\<rparr>)
          (rootManager True) 7 3 42 False)
     = Inr ()"
proof -
  have w: "worldStateWith persistedSlotTrees = (worldStateWith persistedSlotTrees)\<lparr>lowWitnessAfterUpdate := False\<rparr>"
    by (simp add: worldStateWith_def)
  show "fst (writeStorage examplePrimitives (worldStateWith persistedSlotTrees) (rootManager True) 7 3 42 False)
     = Inl (AssertionError ValueMismatchOnWrite)"
    using persistedSlot_update[of False 42]
    by (simp add: writeStorage_def examplePrimitives_slot rootManager_simps w[symmetric] Let_def)
  show "fst (writeStorage examplePrimitives (worldStateWith persistedSlotTrees) (rootManager True) 7 3 5 False)
     = Inr ()"
    using persistedSlot_update[of False 5]
    by (simp add: writeStorage_def examplePrimitives_slot rootManager_simps w[symmetric] Let_def)
  show "fst (writeStorage examplePrimitives ((worldStateWith persistedSlotTrees)\<lparr>lowWitnessAfterUpdate := True\<rparr>)
          (rootManager True) 7 3 42 False)
     = Inr ()"
    using persistedSlot_update[of True 42]
    by (simp add: writeStorage_def examplePrimitives_slot rootManager_simps Let_def)
qed

section \<open>Resolving a fork\<close>

text \<open>
  C4. For every fork that is not yet resolved, the first \<^verbatim>\<open>merge(fork)\<close> or
  \<^verbatim>\<open>reject(fork)\<close> call (both are \<^verbatim>\<open>_merge\<close>) passes the assertion and marks the fork
  resolved, whatever else the call does; every later \<^verbatim>\<open>merge\<close> or \<^verbatim>\<open>reject\<close> call
  on that fork, from any state manager and over any database, fails the assertion and
  changes nothing, so the fork stays resolved. A fork is created unresolved.
\<close>

theorem fork_resolved_once:
  assumes "\<not> alreadyMergedIntoParent forkedState"
  shows "(merge db this forkedState = (res, db', this', forked') \<longrightarrow>
            res \<noteq> Inl (AssertionError AlreadyMerged) \<and> alreadyMergedIntoParent forked' \<and>
            merge db2 this2 forked' = (Inl (AssertionError AlreadyMerged), db2, this2, forked') \<and>
            reject db2 this2 forked' = (Inl (AssertionError AlreadyMerged), db2, this2, forked'))
    \<and> (reject db this forkedState = (res, db', this', forked') \<longrightarrow>
            res \<noteq> Inl (AssertionError AlreadyMerged) \<and> alreadyMergedIntoParent forked' \<and>
            merge db2 this2 forked' = (Inl (AssertionError AlreadyMerged), db2, this2, forked') \<and>
            reject db2 this2 forked' = (Inl (AssertionError AlreadyMerged), db2, this2, forked'))
    \<and> (private_merge db this forkedState reverted = (res, db', this', forked') \<longrightarrow>
            res \<noteq> Inl (AssertionError AlreadyMerged) \<and> alreadyMergedIntoParent forked' \<and>
            private_merge db2 this2 forked' reverted2 =
              (Inl (AssertionError AlreadyMerged), db2, this2, forked'))
    \<and> \<not> alreadyMergedIntoParent (snd (fork db this))"
proof -
  have first: "\<And>rv. private_merge db this forkedState rv = (res, db', this', forked') \<Longrightarrow>
      res \<noteq> Inl (AssertionError AlreadyMerged) \<and> alreadyMergedIntoParent forked'"
    using assms by (auto simp: private_merge_def Let_def split: option.splits if_splits)
  have again: "\<And>rv. alreadyMergedIntoParent forked' \<Longrightarrow>
      private_merge db2 this2 forked' rv = (Inl (AssertionError AlreadyMerged), db2, this2, forked')"
    by (simp add: private_merge_def)
  have created: "\<not> alreadyMergedIntoParent (snd (fork db this))" by (simp add: fork_def)
  from first again created show ?thesis
    unfolding merge_def reject_def by blast
qed

theorem fork_resolved_once_witness:
  "\<not> alreadyMergedIntoParent (snd (fork (worldStateWith seededTrees) (rootManager False)))
   \<and> fst (merge (fst (fork (worldStateWith seededTrees) (rootManager False))) (rootManager False)
             (snd (fork (worldStateWith seededTrees) (rootManager False)))) = Inr ()
   \<and> alreadyMergedIntoParent
       (snd (snd (snd (merge (fst (fork (worldStateWith seededTrees) (rootManager False))) (rootManager False)
             (snd (fork (worldStateWith seededTrees) (rootManager False)))))))
   \<and> fst (merge (worldStateWith seededTrees) (rootManager False)
       (snd (snd (snd (merge (fst (fork (worldStateWith seededTrees) (rootManager False))) (rootManager False)
             (snd (fork (worldStateWith seededTrees) (rootManager False)))))))) = Inl (AssertionError AlreadyMerged)
   \<and> fst (reject (worldStateWith seededTrees) (rootManager False)
       (snd (snd (snd (merge (fst (fork (worldStateWith seededTrees) (rootManager False))) (rootManager False)
             (snd (fork (worldStateWith seededTrees) (rootManager False)))))))) = Inl (AssertionError AlreadyMerged)
   \<and> fst (reject (fst (fork (worldStateWith seededTrees) (rootManager False))) (rootManager False)
             (snd (fork (worldStateWith seededTrees) (rootManager False)))) = Inr ()
   \<and> alreadyMergedIntoParent
       (snd (snd (snd (reject (fst (fork (worldStateWith seededTrees) (rootManager False))) (rootManager False)
             (snd (fork (worldStateWith seededTrees) (rootManager False)))))))
   \<and> fst (reject (worldStateWith seededTrees) (rootManager False)
       (snd (snd (snd (reject (fst (fork (worldStateWith seededTrees) (rootManager False))) (rootManager False)
             (snd (fork (worldStateWith seededTrees) (rootManager False)))))))) = Inl (AssertionError AlreadyMerged)
   \<and> fst (merge (worldStateWith seededTrees) (rootManager False)
       (snd (snd (snd (reject (fst (fork (worldStateWith seededTrees) (rootManager False))) (rootManager False)
             (snd (fork (worldStateWith seededTrees) (rootManager False)))))))) = Inl (AssertionError AlreadyMerged)"
proof -
  let ?db = "worldStateWith seededTrees"
  let ?p = "rootManager False"
  let ?f = "snd (fork ?db ?p)"
  let ?db1 = "fst (fork ?db ?p)"
  let ?M = "merge ?db1 ?p ?f"
  let ?R = "reject ?db1 ?p ?f"
  have a: "\<not> alreadyMergedIntoParent ?f" by (simp add: fork_simps)
  have c: "checkpoints ?db1 \<noteq> []" by (simp add: fork_simps)
  have m: "?M = (fst ?M, fst (snd ?M), fst (snd (snd ?M)), snd (snd (snd ?M)))" by simp
  have r: "?R = (fst ?R, fst (snd ?R), fst (snd (snd ?R)), snd (snd (snd ?R)))" by simp
  have mok: "fst ?M = Inr ()"
    using a c by (simp add: merge_def private_merge_def commitCheckpoint_def Let_def split: list.splits)
  have rok: "fst ?R = Inr ()" using reject_simps(1)[OF a c] .
  note t = fork_resolved_once[OF a, where db = ?db1 and this = ?p and ?db2.0 = ?db and ?this2.0 = ?p]
  from t[where res = "fst ?M" and db' = "fst (snd ?M)" and this' = "fst (snd (snd ?M))"
           and forked' = "snd (snd (snd ?M))"] m
  have m2: "alreadyMergedIntoParent (snd (snd (snd ?M)))"
    "merge ?db ?p (snd (snd (snd ?M))) = (Inl (AssertionError AlreadyMerged), ?db, ?p, snd (snd (snd ?M)))"
    "reject ?db ?p (snd (snd (snd ?M))) = (Inl (AssertionError AlreadyMerged), ?db, ?p, snd (snd (snd ?M)))"
    by blast+
  from t[where res = "fst ?R" and db' = "fst (snd ?R)" and this' = "fst (snd (snd ?R))"
           and forked' = "snd (snd (snd ?R))"] r
  have r2: "alreadyMergedIntoParent (snd (snd (snd ?R)))"
    "reject ?db ?p (snd (snd (snd ?R))) = (Inl (AssertionError AlreadyMerged), ?db, ?p, snd (snd (snd ?R)))"
    "merge ?db ?p (snd (snd (snd ?R))) = (Inl (AssertionError AlreadyMerged), ?db, ?p, snd (snd (snd ?R)))"
    by blast+
  from a mok rok m2 r2 show ?thesis by simp
qed

section \<open>Reading storage without tracing\<close>

lemma peekStorage_cached:
  assumes "readHereOrParent (publicStorage this) a s = Some v"
  shows "peekStorage P db this a s = (Inr v, this)"
  using assms by (simp add: peekStorage_def PublicStorage_read_def)

lemma peekStorage_uncached:
  assumes "readHereOrParent (publicStorage this) a s = None"
  shows "peekStorage P db this a s = (Inr (storageRead P db a s), this)"
  using assms by (simp add: peekStorage_def PublicStorage_read_def)

lemma storageRead_persisted:
  "storageRead examplePrimitives (worldStateWith persistedSlotTrees) 7 3 = 5"
  by (simp add: storageRead_def examplePrimitives_slot getPreviousValueIndex_def getLeafPreimage_def
      worldStateWith_simps persistedSlotTrees_def seededTrees_def indexedTree_def)

lemma persistedForkRejected_state:
  "fst persistedForkRejected = Inr ()"
  "trees (fst (snd persistedForkRejected)) = persistedSlotTrees"
  "readHereOrParent (publicStorage (fst (snd (snd persistedForkRejected)))) 7 3 = Some 42"
  "doMerkleOperations (fst (snd (snd persistedForkRejected)))"
proof -
  let ?db0 = "(worldStateWith persistedSlotTrees)\<lparr>lowWitnessAfterUpdate := True\<rparr>"
  let ?db1 = "fst (fork ?db0 (rootManager True))"
  let ?f = "snd (fork ?db0 (rootManager True))"
  let ?W = "writeStorage examplePrimitives ?db1 ?f 7 3 42 False"
  have pr: "persistedForkRejected = reject (fst (snd ?W)) (rootManager True) (snd (snd ?W))"
    by (simp add: persistedForkRejected_def split_beta)
  have m: "doMerkleOperations ?f" by (simp add: fork_simps rootManager_simps)
  have si: "\<exists>db' low. sequentialInsert ?db1 PUBLIC_DATA_TREE 73 42 = Some (db', low, None)
              \<and> checkpoints db' = [persistedSlotTrees] \<and> leafValue (leafPreimage low) = 42"
    by (simp add: sequentialInsert_def insertLeaf_def fork_def createCheckpoint_def worldStateWith_def
        persistedSlotTrees_def seededTrees_def indexedTree_def setIndexedTree_def Let_def)
  then obtain db' low where s: "sequentialInsert ?db1 PUBLIC_DATA_TREE 73 42 = Some (db', low, None)"
    and cp: "checkpoints db' = [persistedSlotTrees]" and lv: "leafValue (leafPreimage low) = 42"
    by blast
  from s lv m have w: "fst ?W = Inr ()" "fst (snd ?W) = db'"
    "publicStorage (snd (snd ?W)) = PublicStorage_write (publicStorage ?f) 7 3 42"
    "alreadyMergedIntoParent (snd (snd ?W)) = alreadyMergedIntoParent ?f"
    by (simp_all add: writeStorage_def examplePrimitives_slot Let_def)
  from w(4) have a: "\<not> alreadyMergedIntoParent (snd (snd ?W))" by (simp add: fork_simps)
  from w(2) cp have c: "checkpoints (fst (snd ?W)) \<noteq> []" by simp
  note r = reject_simps[OF a c, of "rootManager True"]
  show "fst persistedForkRejected = Inr ()" using r(1) pr by simp
  show "doMerkleOperations (fst (snd (snd persistedForkRejected)))"
    using r(3) pr by (simp add: rootManager_simps)
  have "ps_cache (publicStorage (snd (snd ?W))) (7, 3) = Some 42"
    using w(3) by (simp add: PublicStorage_write_def)
  from readHereOrParent_merged[OF this] r(2) pr
  show "readHereOrParent (publicStorage (fst (snd (snd persistedForkRejected)))) 7 3 = Some 42"
    by simp
  show "trees (fst (snd persistedForkRejected)) = persistedSlotTrees"
    using a w(2) cp unfolding pr
    by (simp add: reject_def private_merge_def revertCheckpoint_def Let_def split: list.splits)
qed

lemma persistedForkRejected_read:
  "fst (readStorage examplePrimitives (fst (snd persistedForkRejected))
          (fst (snd (snd persistedForkRejected))) 7 3) = Inl (AssertionError ValueMismatchOnRead)"
proof -
  let ?db = "fst (snd persistedForkRejected)"
  have "getLeafOrLowLeafInfo ?db PUBLIC_DATA_TREE 73 =
          Inr (\<lparr>leafKey = 73, leafValue = 5, nextKey = 0, nextIndex = 0\<rparr>, 1, True)"
    by (simp add: getLeafOrLowLeafInfo_def getPreviousValueIndex_def getLeafPreimage_def
        persistedForkRejected_state(2) persistedSlotTrees_def seededTrees_def indexedTree_def)
  then show ?thesis
    using persistedForkRejected_state(3,4)
    by (simp add: readStorage_def PublicStorage_read_def examplePrimitives_slot Let_def)
qed

text \<open>
  C9, as the claim states it, fails in two places. \<^verbatim>\<open>peekStorage\<close> does read the
  persistent public data tree: on a cache miss its value is the tree's value for the slot,
  0 for a root state manager over the seeded trees and 5 over trees that hold 5 at the slot
  of address 7, slot 3, in either mode. And it does not always return what \<^verbatim>\<open>readStorage\<close>
  returns: after a root state manager in Merkle mode rejected a fork that wrote 42 over the
  persisted 5, \<^verbatim>\<open>readStorage\<close> of the slot fails the assertion that the leaf's value is the
  cached value, while \<^verbatim>\<open>peekStorage\<close> returns 42.
\<close>

theorem peekStorage_reads_persistent_tree:
  "fst (peekStorage examplePrimitives (worldStateWith seededTrees) (rootManager False) 7 3) = Inr 0
   \<and> fst (peekStorage examplePrimitives (worldStateWith persistedSlotTrees) (rootManager False) 7 3) = Inr 5
   \<and> fst (peekStorage examplePrimitives (worldStateWith seededTrees) (rootManager True) 7 3) = Inr 0
   \<and> fst (peekStorage examplePrimitives (worldStateWith persistedSlotTrees) (rootManager True) 7 3) = Inr 5
   \<and> fst persistedForkRejected = Inr ()
   \<and> doMerkleOperations (fst (snd (snd persistedForkRejected)))
   \<and> fst (readStorage examplePrimitives (fst (snd persistedForkRejected))
            (fst (snd (snd persistedForkRejected))) 7 3) = Inl (AssertionError ValueMismatchOnRead)
   \<and> fst (peekStorage examplePrimitives (fst (snd persistedForkRejected))
            (fst (snd (snd persistedForkRejected))) 7 3) = Inr 42"
proof -
  have c: "\<And>m. readHereOrParent (publicStorage (rootManager m)) 7 3 = None"
    by (simp add: rootManager_simps)
  have z: "storageRead examplePrimitives (worldStateWith seededTrees) 7 3 = 0"
    by (rule storageRead_absent)
      (simp add: examplePrimitives_slot worldStateWith_simps seededTrees_def sentinelLeaf_def)
  show ?thesis
    by (simp add: peekStorage_uncached[OF c] z storageRead_persisted persistedForkRejected_state
        persistedForkRejected_read peekStorage_cached[OF persistedForkRejected_state(3)])
qed

text \<open>
  C9, amended. For every contract address and slot, \<^verbatim>\<open>peekStorage\<close> returns the value the
  value cache resolves: the pending value of this state manager or of an ancestor if there
  is one, whatever the database holds, and otherwise the value read from the persistent
  public data tree, which is 0 if the tree has no leaf for the slot. That is the value
  \<^verbatim>\<open>readStorage\<close> returns whenever \<^verbatim>\<open>readStorage\<close> returns, which it always does with
  Merkle operations off; \<^verbatim>\<open>readStorage\<close> fails only in Merkle mode. The result of
  \<^verbatim>\<open>peekStorage\<close> does not depend on the mode: it makes none of the witness lookups of
  Merkle mode. It hands back the state manager as it was: the trace and the caches are
  unchanged, and it has no access to change the database.
\<close>

theorem peekStorage_reads_without_effect:
  "peekStorage P db this a s = (Inr (fst (PublicStorage_read P db (publicStorage this) a s)), this)
   \<and> (\<forall>v. readHereOrParent (publicStorage this) a s = Some v \<longrightarrow>
          peekStorage P db this a s = (Inr v, this) \<and> peekStorage P db2 this a s = (Inr v, this))
   \<and> (readHereOrParent (publicStorage this) a s = None \<longrightarrow>
          peekStorage P db this a s = (Inr (storageRead P db a s), this))
   \<and> (readHereOrParent (publicStorage this) a s = None \<and>
        computePublicDataTreeLeafSlot P a s \<notin> leafKey ` set (publicDataTree (trees db)) \<longrightarrow>
          peekStorage P db this a s = (Inr 0, this))
   \<and> (\<forall>v this'. readStorage P db this a s = (Inr v, this') \<longrightarrow> fst (peekStorage P db this a s) = Inr v)
   \<and> (\<not> doMerkleOperations this \<longrightarrow> fst (readStorage P db this a s) = fst (peekStorage P db this a s))
   \<and> (fst (readStorage P db this a s) \<noteq> fst (peekStorage P db this a s) \<longrightarrow>
          doMerkleOperations this \<and> (\<exists>f. fst (readStorage P db this a s) = Inl (AssertionError f)))
   \<and> peekStorage P db (this\<lparr>doMerkleOperations := m\<rparr>) a s =
       (fst (peekStorage P db this a s), this\<lparr>doMerkleOperations := m\<rparr>)"
proof -
  have 1: "peekStorage P db this a s = (Inr (fst (PublicStorage_read P db (publicStorage this) a s)), this)"
    by (simp add: peekStorage_def)
  have 2: "\<forall>v. readHereOrParent (publicStorage this) a s = Some v \<longrightarrow>
          peekStorage P db this a s = (Inr v, this) \<and> peekStorage P db2 this a s = (Inr v, this)"
    by (simp add: peekStorage_cached)
  have 3: "readHereOrParent (publicStorage this) a s = None \<longrightarrow>
          peekStorage P db this a s = (Inr (storageRead P db a s), this)"
    by (simp add: peekStorage_uncached)
  have 4: "readHereOrParent (publicStorage this) a s = None \<and>
        computePublicDataTreeLeafSlot P a s \<notin> leafKey ` set (publicDataTree (trees db)) \<longrightarrow>
          peekStorage P db this a s = (Inr 0, this)"
    by (simp add: peekStorage_uncached storageRead_absent)
  have 5: "\<forall>v this'. readStorage P db this a s = (Inr v, this') \<longrightarrow> fst (peekStorage P db this a s) = Inr v"
    by (auto simp: peekStorage_def readStorage_def Let_def split: sum.splits if_splits prod.splits)
  have 6: "\<not> doMerkleOperations this \<longrightarrow> fst (readStorage P db this a s) = fst (peekStorage P db this a s)"
    by (simp add: peekStorage_def readStorage_def Let_def)
  have 7: "fst (readStorage P db this a s) \<noteq> fst (peekStorage P db this a s) \<longrightarrow>
          doMerkleOperations this \<and> (\<exists>f. fst (readStorage P db this a s) = Inl (AssertionError f))"
    by (auto simp: peekStorage_def readStorage_def getLeafOrLowLeafInfo_def Let_def
        split: sum.splits if_splits prod.splits option.splits)
  have 8: "peekStorage P db (this\<lparr>doMerkleOperations := m\<rparr>) a s =
       (fst (peekStorage P db this a s), this\<lparr>doMerkleOperations := m\<rparr>)"
    by (simp add: peekStorage_def)
  from 1 2 3 4 5 6 7 8 show ?thesis by blast
qed

theorem peekStorage_reads_without_effect_witness:
  "readHereOrParent (publicStorage (rootManager False)) 7 3 = None
   \<and> computePublicDataTreeLeafSlot examplePrimitives 7 3
         \<notin> leafKey ` set (publicDataTree (trees (worldStateWith seededTrees)))
   \<and> peekStorage examplePrimitives (worldStateWith seededTrees) (rootManager False) 7 3
       = (Inr 0, rootManager False)
   \<and> \<not> doMerkleOperations (rootManager False)
   \<and> fst (readStorage examplePrimitives (worldStateWith seededTrees) (rootManager False) 7 3) = Inr 0
   \<and> fst (readStorage examplePrimitives (worldStateWith seededTrees) (rootManager True) 7 3) = Inr 0
   \<and> fst (peekStorage examplePrimitives (worldStateWith seededTrees) (rootManager True) 7 3) = Inr 0
   \<and> readHereOrParent (publicStorage (fst (snd (snd persistedForkRejected)))) 7 3 = Some 42
   \<and> peekStorage examplePrimitives (fst (snd persistedForkRejected))
        (fst (snd (snd persistedForkRejected))) 7 3 = (Inr 42, fst (snd (snd persistedForkRejected)))
   \<and> peekStorage examplePrimitives (worldStateWith seededTrees)
        (fst (snd (snd persistedForkRejected))) 7 3 = (Inr 42, fst (snd (snd persistedForkRejected)))
   \<and> fst (readStorage examplePrimitives (fst (snd persistedForkRejected))
            (fst (snd (snd persistedForkRejected))) 7 3)
       \<noteq> fst (peekStorage examplePrimitives (fst (snd persistedForkRejected))
            (fst (snd (snd persistedForkRejected))) 7 3)
   \<and> doMerkleOperations (fst (snd (snd persistedForkRejected)))
   \<and> fst (readStorage examplePrimitives (fst (snd persistedForkRejected))
            (fst (snd (snd persistedForkRejected))) 7 3) = Inl (AssertionError ValueMismatchOnRead)"
proof -
  let ?db = "worldStateWith seededTrees"
  let ?pdb = "fst (snd persistedForkRejected)"
  let ?root = "fst (snd (snd persistedForkRejected))"
  have c: "readHereOrParent (publicStorage (rootManager False)) 7 3 = None"
    by (simp add: rootManager_simps)
  have t: "computePublicDataTreeLeafSlot examplePrimitives 7 3
             \<notin> leafKey ` set (publicDataTree (trees ?db))"
    by (simp add: examplePrimitives_slot worldStateWith_simps seededTrees_def sentinelLeaf_def)
  have n: "\<not> doMerkleOperations (rootManager False)" by (simp add: rootManager_simps)
  note plain = peekStorage_reads_without_effect[where P = examplePrimitives and db = ?db
      and this = "rootManager False" and a = 7 and s = 3]
  from plain c t
  have p0: "peekStorage examplePrimitives ?db (rootManager False) 7 3 = (Inr 0, rootManager False)"
    by blast
  from plain n p0
  have r0: "fst (readStorage examplePrimitives ?db (rootManager False) 7 3) = Inr 0" by simp
  let ?r = "readStorage examplePrimitives ?db (rootManager True) 7 3"
  have r1: "fst ?r = Inr 0" by (rule root_reads_zero)
  then have "?r = (Inr 0, snd ?r)" by (simp add: prod_eq_iff)
  with peekStorage_reads_without_effect[where P = examplePrimitives and db = ?db
      and this = "rootManager True" and a = 7 and s = 3]
  have p1: "fst (peekStorage examplePrimitives ?db (rootManager True) 7 3) = Inr 0" by blast
  have h: "readHereOrParent (publicStorage ?root) 7 3 = Some 42"
    by (rule persistedForkRejected_state)
  note rej = peekStorage_reads_without_effect[where P = examplePrimitives and db = ?pdb
      and this = ?root and a = 7 and s = 3 and ?db2.0 = ?db]
  from rej h
  have p2: "peekStorage examplePrimitives ?pdb ?root 7 3 = (Inr 42, ?root)"
    "peekStorage examplePrimitives ?db ?root 7 3 = (Inr 42, ?root)" by blast+
  have rd: "fst (readStorage examplePrimitives ?pdb ?root 7 3) = Inl (AssertionError ValueMismatchOnRead)"
    by (rule persistedForkRejected_read)
  with p2(1) have ne: "fst (readStorage examplePrimitives ?pdb ?root 7 3)
       \<noteq> fst (peekStorage examplePrimitives ?pdb ?root 7 3)" by simp
  with rej have dm: "doMerkleOperations ?root" by blast
  from c t p0 n r0 r1 p1 h p2 ne dm rd show ?thesis by blast
qed

section \<open>Writing a nullifier\<close>

lemma getLeafOrLowLeafInfo_found:
  assumes "getPreviousValueIndex db t k = Some (i, present)"
  shows "getLeafOrLowLeafInfo db t k = Inr (indexedTree (trees db) t ! i, i, present)"
proof -
  from assms have "previousValueIndex (indexedTree (trees db) t) k = Some i"
    by (auto simp: getPreviousValueIndex_def split: option.splits)
  from previousValueIndex_Some[OF this] have "i < length (indexedTree (trees db) t)" by simp
  with assms show ?thesis by (simp add: getLeafOrLowLeafInfo_def getLeafPreimage_def)
qed

lemma present_key_found:
  assumes "k \<in> leafKey ` set ls"
  shows "\<exists>i. previousValueIndex ls k = Some i \<and> leafKey (ls ! i) = k"
proof (cases "previousValueIndex ls k")
  case None
  with assms show ?thesis by (auto simp: previousValueIndex_None)
next
  case (Some i)
  from previousValueIndex_Some[OF Some] assms have "leafKey (ls ! i) = k" by fastforce
  with Some show ?thesis by simp
qed

text \<open>
  In Merkle mode a nullifier that the persistent tree holds is traced as a nullifier check
  with the leaf's membership witness, and the call throws.
\<close>

lemma writeSiloedNullifier_present:
  assumes "doMerkleOperations this" and "getPreviousValueIndex db NULLIFIER_TREE n = Some (i, True)"
  shows "writeSiloedNullifier db this n =
           (Inl NullifierCollisionError, db,
            this\<lparr>trace := trace this @
              [TraceNullifierCheck n True
                 (Some (nullifierTree (trees db) ! i, i, SiblingPath (Indexed NULLIFIER_TREE) i))]\<rparr>)"
  using assms getLeafOrLowLeafInfo_found[OF assms(2)]
  by (simp add: writeSiloedNullifier_def getSiblingPath_def indexedTree_def)

lemma writeSiloedNullifier_in_tree:
  assumes "doMerkleOperations this" and "n \<in> leafKey ` set (nullifierTree (trees db))"
  shows "\<exists>hint. writeSiloedNullifier db this n =
           (Inl NullifierCollisionError, db,
            this\<lparr>trace := trace this @ [TraceNullifierCheck n True (Some hint)]\<rparr>)"
proof -
  from present_key_found[OF assms(2)] obtain i where
    "getPreviousValueIndex db NULLIFIER_TREE n = Some (i, True)"
    by (auto simp: getPreviousValueIndex_def indexedTree_def)
  from writeSiloedNullifier_present[OF assms(1) this] show ?thesis by blast
qed

text \<open>
  A nullifier that exists but that the Merkle branch did not find in the tree (Merkle
  operations are off, or the nullifier is pending only) makes \<^verbatim>\<open>nullifiers.append\<close> throw:
  the call throws with the state manager as it was, nothing traced.
\<close>

lemma writeSiloedNullifier_pending:
  assumes "fst (NullifierManager_checkExists db (nullifiers this) n)"
    and "doMerkleOperations this \<Longrightarrow> \<exists>i. getPreviousValueIndex db NULLIFIER_TREE n = Some (i, False)"
  shows "writeSiloedNullifier db this n = (Inl NullifierCollisionError, db, this)"
proof (cases "doMerkleOperations this")
  case False
  with assms(1) show ?thesis by (simp add: writeSiloedNullifier_def NullifierManager_append_def)
next
  case True
  with assms(2) obtain i where p: "getPreviousValueIndex db NULLIFIER_TREE n = Some (i, False)" by blast
  from True assms(1) getLeafOrLowLeafInfo_found[OF p] show ?thesis
    by (simp add: writeSiloedNullifier_def NullifierManager_append_def)
qed

text \<open>
  A nullifier that does not exist is appended to the pending set and traced as a new
  nullifier; in Merkle mode it is inserted into the tree as well.
\<close>

lemma writeSiloedNullifier_new:
  assumes "\<not> fst (NullifierManager_checkExists db (nullifiers this) n)"
    and "doMerkleOperations this \<Longrightarrow> \<exists>i. getPreviousValueIndex db NULLIFIER_TREE n = Some (i, False)"
  shows "\<exists>db' hint. writeSiloedNullifier db this n =
           (Inr (), db',
            this\<lparr>nullifiers := NullifierManager (insert n (nm_cache (nullifiers this))) (nm_parent (nullifiers this)),
                 trace := trace this @ [TraceNewNullifier n hint]\<rparr>)
           \<and> (if doMerkleOperations this then n \<in> leafKey ` set (nullifierTree (trees db')) \<and> hint \<noteq> None
               else db' = db \<and> hint = None)"
proof (cases "doMerkleOperations this")
  case False
  with assms(1) show ?thesis by (simp add: writeSiloedNullifier_def NullifierManager_append_def)
next
  case True
  with assms(2) obtain i where p: "getPreviousValueIndex db NULLIFIER_TREE n = Some (i, False)" by blast
  then have pv: "previousValueIndex (indexedTree (trees db) NULLIFIER_TREE) n = Some i"
    and ne: "leafKey (indexedTree (trees db) NULLIFIER_TREE ! i) \<noteq> n"
    by (auto simp: getPreviousValueIndex_def split: option.splits)
  then have "\<exists>db' low ins. sequentialInsert db NULLIFIER_TREE n 0 = Some (db', low, Some ins) \<and>
           n \<in> leafKey ` set (indexedTree (trees db') NULLIFIER_TREE)"
    by (simp add: sequentialInsert_def insertLeaf_def Let_def)
  then obtain db' low ins where
    "sequentialInsert db NULLIFIER_TREE n 0 = Some (db', low, Some ins)"
    "n \<in> leafKey ` set (indexedTree (trees db') NULLIFIER_TREE)" by blast
  with True assms(1) getLeafOrLowLeafInfo_found[OF p] have
    "writeSiloedNullifier db this n =
           (Inr (), db',
            this\<lparr>nullifiers := NullifierManager (insert n (nm_cache (nullifiers this))) (nm_parent (nullifiers this)),
                 trace := trace this @ [TraceNewNullifier n
                   (Some (leafPreimage low, index low, siblingPath low, siblingPath ins))]\<rparr>)
     \<and> n \<in> leafKey ` set (nullifierTree (trees db'))"
    by (simp add: writeSiloedNullifier_def NullifierManager_append_def indexedTree_def)
  with True show ?thesis by auto
qed

text \<open>
  After a write that returned, a second write of the same nullifier by the same state
  manager throws the collision error, in either mode.
\<close>

lemma writeSiloedNullifier_again:
  assumes "writeSiloedNullifier db this n = (Inr (), db', this')"
  shows "fst (writeSiloedNullifier db' this' n) = Inl NullifierCollisionError"
proof (cases "doMerkleOperations this")
  case False
  with assms have "n \<in> nm_cache (nullifiers this')" "\<not> doMerkleOperations this'"
    by (auto simp: writeSiloedNullifier_def NullifierManager_append_def split: if_splits)
  then have "fst (NullifierManager_checkExists db' (nullifiers this') n)" "\<not> doMerkleOperations this'"
    by (cases "nullifiers this'"; simp add: NullifierManager_checkExists_def)+
  from writeSiloedNullifier_pending[OF this(1)] this(2) show ?thesis by simp
next
  case True
  from True assms obtain pre i where g: "getLeafOrLowLeafInfo db NULLIFIER_TREE n = Inr (pre, i, False)"
    by (auto simp: writeSiloedNullifier_def Let_def split: sum.splits if_splits prod.splits)
  then have p: "getPreviousValueIndex db NULLIFIER_TREE n = Some (i, False)"
    by (auto simp: getLeafOrLowLeafInfo_def split: option.splits)
  from True assms g have ne: "\<not> fst (NullifierManager_checkExists db (nullifiers this) n)"
    by (auto simp: writeSiloedNullifier_def NullifierManager_append_def split: if_splits)
  from writeSiloedNullifier_new[OF ne] p True assms
  have "n \<in> leafKey ` set (nullifierTree (trees db'))" "doMerkleOperations this'" by auto
  from writeSiloedNullifier_in_tree[OF this(2) this(1)] show ?thesis by auto
qed

lemma nullifierForkRejected_state:
  "fst nullifierForkRejected = Inr ()"
  "trees (fst (snd nullifierForkRejected)) = seededTrees"
  "nullifiers (fst (snd (snd nullifierForkRejected))) = NullifierManager {7} None"
  "doMerkleOperations (fst (snd (snd nullifierForkRejected)))"
  by (simp_all add: nullifierForkRejected_def fork_def createCheckpoint_def writeSiloedNullifier_def
      rootManager_simps NullifierManager_fork_def NullifierManager_acceptAndMerge_def
      NullifierManager_checkExists_def NullifierManager_append_def Let_def getLeafOrLowLeafInfo_def
      getPreviousValueIndex_def getLeafPreimage_def worldStateWith_def seededTrees_def sentinelLeaf_def
      indexedTree_def setIndexedTree_def sequentialInsert_def insertLeaf_def getNullifierIndex_def
      getSiblingPath_def reject_def private_merge_def revertCheckpoint_def split_beta)

text \<open>
  C2. The claim is that \<^verbatim>\<open>writeSiloedNullifier\<close> of a nullifier that already exists, in
  the pending cache or in the persistent nullifier tree, traces the membership witness as
  a nullifier check and then throws \<^verbatim>\<open>NullifierCollisionError\<close>. The code traces the
  check only inside \<^verbatim>\<open>if (this.doMerkleOperations)\<close> and only when the tree holds the
  nullifier (\<open>writeSiloedNullifier_present\<close>, against the source's own comment "Trace all
  nullifier creations, even duplicate insertions that fail"). Everywhere else the error
  comes from \<^verbatim>\<open>nullifiers.append\<close>, before anything is traced
  (\<open>writeSiloedNullifier_pending\<close>). With Merkle operations off, a root state manager over
  the seeded trees writes the siloed nullifier 7 twice: the first write returns, the
  nullifier is pending, the second write throws the collision error, and the trace holds
  the first write only, no nullifier check. In Merkle mode the same two writes end with
  the nullifier check traced. And in Merkle mode after a fork wrote 7 and was rejected, the
  nullifier is pending in the root and not in the tree, and the root's write of 7 throws
  with nothing traced. The rest of the claim holds: a nullifier that does not exist is
  appended without an error (\<open>writeSiloedNullifier_new\<close>), and a second write throws
  (\<open>writeSiloedNullifier_again\<close>).
\<close>

theorem pending_nullifier_collision_untraced:
  "fst (nullifierWrittenTwice False) = Inr ()
   \<and> fst (NullifierManager_checkExists (worldStateWith seededTrees)
            (nullifiers (snd (snd (writeSiloedNullifier (worldStateWith seededTrees) (rootManager False) 7)))) 7)
   \<and> fst (snd (nullifierWrittenTwice False)) = Inl NullifierCollisionError
   \<and> trace (snd (snd (snd (nullifierWrittenTwice False)))) = [TraceNewNullifier 7 None]
   \<and> fst (nullifierWrittenTwice True) = Inr ()
   \<and> fst (snd (nullifierWrittenTwice True)) = Inl NullifierCollisionError
   \<and> trace (snd (snd (snd (nullifierWrittenTwice True)))) =
       [TraceNewNullifier 7
          (Some (\<lparr>leafKey = 0, leafValue = 0, nextKey = 0, nextIndex = 0\<rparr>, 0,
                 SiblingPath (Indexed NULLIFIER_TREE) 0, SiblingPath (Indexed NULLIFIER_TREE) (Suc 0))),
        TraceNullifierCheck 7 True
          (Some (\<lparr>leafKey = 7, leafValue = 0, nextKey = 0, nextIndex = 0\<rparr>, Suc 0,
                 SiblingPath (Indexed NULLIFIER_TREE) (Suc 0)))]
   \<and> fst nullifierForkRejected = Inr ()
   \<and> doMerkleOperations (fst (snd (snd nullifierForkRejected)))
   \<and> 7 \<notin> leafKey ` set (nullifierTree (trees (fst (snd nullifierForkRejected))))
   \<and> fst (NullifierManager_checkExists (fst (snd nullifierForkRejected))
            (nullifiers (fst (snd (snd nullifierForkRejected)))) 7)
   \<and> writeSiloedNullifier (fst (snd nullifierForkRejected)) (fst (snd (snd nullifierForkRejected))) 7
       = (Inl NullifierCollisionError, fst (snd nullifierForkRejected), fst (snd (snd nullifierForkRejected)))"
proof -
  have plain: "fst (nullifierWrittenTwice False) = Inr ()
     \<and> fst (NullifierManager_checkExists (worldStateWith seededTrees)
            (nullifiers (snd (snd (writeSiloedNullifier (worldStateWith seededTrees) (rootManager False) 7)))) 7)
     \<and> fst (snd (nullifierWrittenTwice False)) = Inl NullifierCollisionError
     \<and> trace (snd (snd (snd (nullifierWrittenTwice False)))) = [TraceNewNullifier 7 None]"
    by (simp add: nullifierWrittenTwice_def writeSiloedNullifier_def rootManager_simps
        NullifierManager_checkExists_def NullifierManager_append_def getNullifierIndex_def
        worldStateWith_def seededTrees_def sentinelLeaf_def Let_def)
  have merkle: "fst (nullifierWrittenTwice True) = Inr ()
     \<and> fst (snd (nullifierWrittenTwice True)) = Inl NullifierCollisionError
     \<and> trace (snd (snd (snd (nullifierWrittenTwice True)))) =
       [TraceNewNullifier 7
          (Some (\<lparr>leafKey = 0, leafValue = 0, nextKey = 0, nextIndex = 0\<rparr>, 0,
                 SiblingPath (Indexed NULLIFIER_TREE) 0, SiblingPath (Indexed NULLIFIER_TREE) (Suc 0))),
        TraceNullifierCheck 7 True
          (Some (\<lparr>leafKey = 7, leafValue = 0, nextKey = 0, nextIndex = 0\<rparr>, Suc 0,
                 SiblingPath (Indexed NULLIFIER_TREE) (Suc 0)))]"
    by (simp add: nullifierWrittenTwice_def writeSiloedNullifier_def rootManager_simps
        NullifierManager_checkExists_def NullifierManager_append_def Let_def getLeafOrLowLeafInfo_def
        getPreviousValueIndex_def getLeafPreimage_def worldStateWith_def seededTrees_def sentinelLeaf_def
        indexedTree_def setIndexedTree_def sequentialInsert_def insertLeaf_def getNullifierIndex_def
        getSiblingPath_def split_beta)
  let ?db = "fst (snd nullifierForkRejected)"
  let ?root = "fst (snd (snd nullifierForkRejected))"
  have absent: "7 \<notin> leafKey ` set (nullifierTree (trees ?db))"
    by (simp add: nullifierForkRejected_state seededTrees_def sentinelLeaf_def)
  have pending: "fst (NullifierManager_checkExists ?db (nullifiers ?root) 7)"
    by (simp add: nullifierForkRejected_state NullifierManager_checkExists_def)
  have low: "getPreviousValueIndex ?db NULLIFIER_TREE 7 = Some (0, False)"
    by (simp add: getPreviousValueIndex_def nullifierForkRejected_state seededTrees_def
        sentinelLeaf_def indexedTree_def)
  have thrown: "writeSiloedNullifier ?db ?root 7 = (Inl NullifierCollisionError, ?db, ?root)"
    by (rule writeSiloedNullifier_pending[OF pending]) (simp add: low)
  from plain merkle absent pending thrown nullifierForkRejected_state(1,4) show ?thesis
    by (simp only: simp_thms)
qed

end
